theory Spec2Isabelle
  imports Complex_Main "HOL-Library.AList" "HOL-Library.Multiset"
begin

section \<open>Data model\<close>

text \<open>
  The room manager (\<^verbatim>\<open>lib/roomManager\<close>) keeps two JavaScript \<^verbatim>\<open>Map\<close>s: rooms by room
  id and game states by room id. A \<^verbatim>\<open>Map\<close> iterates in insertion order and \<^verbatim>\<open>set\<close> on a
  present key keeps the key's position, so both are association lists written with
  \<^const>\<open>AList.update\<close>, read with \<^const>\<open>map_of\<close> and shrunk with \<^const>\<open>AList.delete\<close>.
  Identifiers are strings, numbers that the code only counts with are \<^typ>\<open>nat\<close>, card
  values, answers, scores and timestamps are \<^typ>\<open>int\<close>; \<^verbatim>\<open>null\<close> and \<^verbatim>\<open>undefined\<close>
  are \<^const>\<open>None\<close>.
\<close>

record card =
  card_id :: string
  card_value :: int
  card_suit :: string

record player =
  playerId :: string
  playerNumber :: nat
  socketId :: string
  status :: string

record room =
  roomId :: string
  name :: string
  players :: "(string \<times> player) list"
  createdAt :: int
  lastActivity :: int
  room_difficulty :: "string option"
  room_initialCards :: "int option"
  room_options :: "(string option \<times> int option) option"
  transitioning :: bool
  lastEmptyAt :: "int option"

record history_entry =
  h_a :: "int option"
  h_b :: "int option"
  h_correctAnswer :: int
  h_solvedBy :: "nat option"
  h_timestamp :: int

record gameState =
  difficulty :: string
  initialCards :: int
  player1Hand :: "card list"
  player2Hand :: "card list"
  player1SelectedCard :: "card option"
  player2SelectedCard :: "card option"
  submittedAnswers :: "nat \<Rightarrow> int option"
  player1Answered :: bool
  player2Answered :: bool
  player1Score :: int
  player2Score :: int
  currentProblem :: "(int \<times> int) option"
  answerOptions :: "int list"
  correctAnswer :: int
  gameOver :: bool
  winner :: "string option"
  problemSolved :: bool
  solvedBy :: "nat option"
  roundInProgress :: bool
  playersConnected :: nat
  revealEquation :: bool
  history :: "history_entry list"
  dealComplete :: bool
  advanceClients :: bool

record manager =
  rooms :: "(string \<times> room) list"
  gameStates :: "(string \<times> gameState) list"

text \<open>The options object of \<^verbatim>\<open>initGameState(roomId, options = {})\<close>.\<close>

record init_options =
  opt_difficulty :: "string option"
  opt_initialCards :: "int option"

definition new_manager :: manager where
  "new_manager = \<lparr>rooms = [], gameStates = []\<rparr>"

text \<open>\<^verbatim>\<open>map.size\<close> of a \<^verbatim>\<open>Map\<close> kept as an association list with one entry per key.\<close>

definition map_size :: "('k \<times> 'v) list \<Rightarrow> nat" where
  "map_size m = length m"

section \<open>Random numbers\<close>

text \<open>
  \<^verbatim>\<open>Math.random()\<close> returns a number in \<open>[0, 1)\<close>. The source of randomness is a
  parameter: \<open>rnd k\<close> is what the \<open>k\<close>-th call draws, and its fractional part is taken so
  that every oracle stays in \<open>[0, 1)\<close>. Each function that draws takes the index of its
  first call and returns the index of the next one.
\<close>

type_synonym rng = "nat \<Rightarrow> rat"

definition Math_random :: "rng \<Rightarrow> nat \<Rightarrow> rat" where
  "Math_random rnd k = frac (rnd k)"

section \<open>Dealing\<close>

definition digit_chars :: string where
  "digit_chars = ''0123456789''"

fun show_nat :: "nat \<Rightarrow> string" where
  "show_nat n = (if n < 10 then [digit_chars ! n]
                 else show_nat (n div 10) @ [digit_chars ! (n mod 10)])"

declare show_nat.simps [simp del]

definition show_int :: "int \<Rightarrow> string" where
  "show_int i = (if i < 0 then CHR ''-'' # show_nat (nat (- i)) else show_nat (nat i))"

definition suits :: "string list" where
  "suits = [''hearts'', ''diamonds'', ''clubs'', ''spades'']"

text \<open>\<^verbatim>\<open>allCards.push({ id: `${suit}-${value}-${id}`, value, suit }); id++\<close>\<close>

definition push_card :: "string \<Rightarrow> int \<Rightarrow> card list \<times> nat \<Rightarrow> card list \<times> nat" where
  "push_card s v acc =
     (case acc of (cards, idc) \<Rightarrow>
        (cards @ [\<lparr>card_id = s @ ''-'' @ show_int v @ ''-'' @ show_nat idc,
                   card_value = v, card_suit = s\<rparr>], Suc idc))"

text \<open>The two nested loops: every suit, and for each suit the values 2 to 12.\<close>

definition build_deck :: "card list" where
  "build_deck = fst (fold (\<lambda>s acc. fold (push_card s) [2..12] acc) suits ([], 0))"

text \<open>
  The shuffle, \<^verbatim>\<open>for (i = allCards.length - 1; i > 0; i--)\<close> with
  \<^verbatim>\<open>j = Math.floor(Math.random() * (i + 1))\<close> and the swap of positions \<open>i\<close> and \<open>j\<close>.
\<close>

fun shuffle_from :: "rng \<Rightarrow> nat \<Rightarrow> nat \<Rightarrow> card list \<Rightarrow> card list \<times> nat" where
  "shuffle_from rnd k 0 xs = (xs, k)"
| "shuffle_from rnd k (Suc i) xs =
     (let j = nat \<lfloor>Math_random rnd k * of_nat (Suc i + 1)\<rfloor>
      in shuffle_from rnd (Suc k) i (xs[Suc i := xs ! j, j := xs ! Suc i]))"

definition shuffle :: "rng \<Rightarrow> nat \<Rightarrow> card list \<Rightarrow> card list \<times> nat" where
  "shuffle rnd k xs = shuffle_from rnd k (length xs - 1) xs"

text \<open>
  \<^verbatim>\<open>a || b\<close> on strings and numbers: the empty string and 0 are falsy, like an absent
  value; \<open>or_else x y\<close> is \<^verbatim>\<open>x || y\<close> once \<open>x\<close> has been tested.
\<close>

definition truthy_str :: "string option \<Rightarrow> string option" where
  "truthy_str x = (case x of Some s \<Rightarrow> (if s = [] then None else Some s) | None \<Rightarrow> None)"

definition truthy_num :: "int option \<Rightarrow> int option" where
  "truthy_num x = (case x of Some n \<Rightarrow> (if n = 0 then None else Some n) | None \<Rightarrow> None)"

definition or_else :: "'a option \<Rightarrow> 'a \<Rightarrow> 'a" where
  "or_else x y = (case x of Some v \<Rightarrow> v | None \<Rightarrow> y)"

text \<open>\<^verbatim>\<open>const difficultyDefaults = { test: 1, easy: 6, medium: 18, hard: 24 }\<close>\<close>

definition difficultyDefaults :: "string \<Rightarrow> int option" where
  "difficultyDefaults d =
     (if d = ''test'' then Some 1 else if d = ''easy'' then Some 6
      else if d = ''medium'' then Some 18 else if d = ''hard'' then Some 24 else None)"

text \<open>\<^verbatim>\<open>allCards.splice(0, n)\<close> returns the first \<open>n\<close> cards (none when \<open>n \<le> 0\<close>) and
  leaves the rest in \<^verbatim>\<open>allCards\<close>.\<close>

definition splice0 :: "int \<Rightarrow> card list \<Rightarrow> card list \<times> card list" where
  "splice0 n xs = (take (nat n) xs, drop (nat n) xs)"

definition set_all_status :: "string \<Rightarrow> (string \<times> player) list \<Rightarrow> (string \<times> player) list" where
  "set_all_status s ps = map (\<lambda>(k, p). (k, p\<lparr>status := s\<rparr>)) ps"

text \<open>
  \<^verbatim>\<open>initGameState(roomId, options)\<close>. The result is the returned state (\<^verbatim>\<open>null\<close> for an
  unknown room), the manager after the call and the index of the next random draw.
\<close>

definition initGameState ::
  "rng \<Rightarrow> nat \<Rightarrow> string \<Rightarrow> init_options \<Rightarrow> manager \<Rightarrow> gameState option \<times> manager \<times> nat" where
  "initGameState rnd k rid opts m =
     (case map_of (rooms m) rid of
        None \<Rightarrow> (None, m, k)
      | Some r \<Rightarrow>
         (let diff = or_else (truthy_str (opt_difficulty opts))
                       (or_else (truthy_str (room_difficulty r)) ''easy'');
              n = or_else (truthy_num (opt_initialCards opts))
                    (or_else (truthy_num (room_initialCards r))
                      (or_else (truthy_num (difficultyDefaults diff)) 6));
              (allCards, k') = shuffle rnd k build_deck;
              (p1, rest) = splice0 n allCards;
              (p2, rest') = splice0 n rest;
              st = \<lparr>difficulty = diff, initialCards = n,
                    player1Hand = p1, player2Hand = p2,
                    player1SelectedCard = None, player2SelectedCard = None,
                    submittedAnswers = (\<lambda>_. None),
                    player1Answered = False, player2Answered = False,
                    player1Score = 0, player2Score = 0,
                    currentProblem = None, answerOptions = [], correctAnswer = 0,
                    gameOver = False, winner = None,
                    problemSolved = False, solvedBy = None,
                    roundInProgress = False,
                    playersConnected = map_size (players r),
                    revealEquation = False, history = [],
                    dealComplete = False, advanceClients = False\<rparr>;
              r' = r\<lparr>room_difficulty := Some diff, room_initialCards := Some n,
                      room_options := Some (Some diff, Some n),
                      players := set_all_status ''in-game'' (players r)\<rparr>
          in (Some st,
              m\<lparr>rooms := AList.update rid r' (rooms m),
                 gameStates := AList.update rid st (gameStates m)\<rparr>, k')))"

section \<open>Room registry\<close>

record response =
  resp_roomId :: string
  resp_roomName :: string
  resp_playerId :: string
  resp_playerNumber :: nat
  otherPlayerConnected :: bool

datatype error = RoomNotFound | RoomFull

text \<open>
  \<^verbatim>\<open>createRoom(socketId)\<close>. The room id, the player id and the room name come from
  \<^verbatim>\<open>Math.random()\<close> and the time from \<^verbatim>\<open>Date.now()\<close>; they are parameters here, so
  that every value the generators can return is covered.
\<close>

definition createRoom ::
  "string \<Rightarrow> string \<Rightarrow> string \<Rightarrow> int \<Rightarrow> string \<Rightarrow> manager \<Rightarrow> response \<times> manager" where
  "createRoom rid pid rname now sid m =
     (let p = \<lparr>playerId = pid, playerNumber = 1, socketId = sid, status = ''lobby''\<rparr>;
          r = \<lparr>roomId = rid, name = rname, players = AList.update sid p [],
               createdAt = now, lastActivity = now,
               room_difficulty = None, room_initialCards = None, room_options = None,
               transitioning = False, lastEmptyAt = None\<rparr>
      in (\<lparr>resp_roomId = rid, resp_roomName = rname, resp_playerId = pid,
            resp_playerNumber = 1, otherPlayerConnected = False\<rparr>,
          m\<lparr>rooms := AList.update rid r (rooms m)\<rparr>))"

definition joinRoom ::
  "string \<Rightarrow> int \<Rightarrow> string \<Rightarrow> string \<Rightarrow> manager \<Rightarrow> (error + response) \<times> manager" where
  "joinRoom pid now rid sid m =
     (case map_of (rooms m) rid of
        None \<Rightarrow> (Inl RoomNotFound, m)
      | Some r \<Rightarrow>
          if map_size (players r) \<ge> 2 then (Inl RoomFull, m)
          else
            (let p = \<lparr>playerId = pid, playerNumber = 2, socketId = sid, status = ''lobby''\<rparr>;
                 r' = r\<lparr>players := AList.update sid p (players r), lastActivity := now\<rparr>
             in (Inr \<lparr>resp_roomId = rid, resp_roomName = name r, resp_playerId = pid,
                      resp_playerNumber = 2, otherPlayerConnected = True\<rparr>,
                 m\<lparr>rooms := AList.update rid r' (rooms m)\<rparr>)))"

text \<open>
  \<^verbatim>\<open>leaveRoomBySocket(socketId)\<close>: the first room, in insertion order, that holds the
  socket. The result is \<^verbatim>\<open>{ roomId, deleted, remaining }\<close> or \<^verbatim>\<open>null\<close>. (The leaving
  player's status is set to \<^verbatim>\<open>'left'\<close> on an object that is dropped right after.)
\<close>

fun find_room_of :: "string \<Rightarrow> (string \<times> room) list \<Rightarrow> (string \<times> room) option" where
  "find_room_of sid [] = None"
| "find_room_of sid ((rid, r) # rs) =
     (if map_of (players r) sid \<noteq> None then Some (rid, r) else find_room_of sid rs)"

definition leaveRoomBySocket ::
  "string \<Rightarrow> manager \<Rightarrow> (string \<times> bool \<times> nat) option \<times> manager" where
  "leaveRoomBySocket sid m =
     (case find_room_of sid (rooms m) of
        None \<Rightarrow> (None, m)
      | Some (rid, r) \<Rightarrow>
          (let ps = AList.delete sid (players r);
               remaining = map_size ps
           in if remaining = 0
              then (Some (rid, True, remaining),
                    m\<lparr>rooms := AList.delete rid (rooms m),
                       gameStates := AList.delete rid (gameStates m)\<rparr>)
              else (Some (rid, False, remaining),
                    m\<lparr>rooms := AList.update rid
                         (r\<lparr>players := ps,
                            lastEmptyAt := (if truthy_num (lastEmptyAt r) \<noteq> None then None
                                            else lastEmptyAt r)\<rparr>) (rooms m)\<rparr>)))"

definition setPlayerStatus :: "string \<Rightarrow> string \<Rightarrow> string \<Rightarrow> manager \<Rightarrow> bool \<times> manager" where
  "setPlayerStatus rid sid s m =
     (case map_of (rooms m) rid of
        None \<Rightarrow> (False, m)
      | Some r \<Rightarrow>
          (case map_of (players r) sid of
             None \<Rightarrow> (False, m)
           | Some p \<Rightarrow>
               (True, m\<lparr>rooms := AList.update rid
                          (r\<lparr>players := AList.update sid (p\<lparr>status := s\<rparr>) (players r)\<rparr>)
                          (rooms m)\<rparr>)))"

definition roomTTLMs :: int where
  "roomTTLMs = 10 * 60 * 1000"

text \<open>
  \<^verbatim>\<open>garbageCollectRooms()\<close> at time \<open>now\<close>: one pass over the rooms; the result is
  the list of removed room ids and the manager after the pass.
\<close>

definition gc_room :: "int \<Rightarrow> string \<times> room \<Rightarrow> string list \<times> manager \<Rightarrow> string list \<times> manager" where
  "gc_room now e acc =
     (case e of (rid, r) \<Rightarrow> (case acc of (removed, m) \<Rightarrow>
        (if map_size (players r) = 0 \<and> truthy_num (lastEmptyAt r) \<noteq> None
            \<and> now - or_else (lastEmptyAt r) 0 > roomTTLMs
         then (removed @ [rid],
               m\<lparr>rooms := AList.delete rid (rooms m),
                  gameStates := AList.delete rid (gameStates m)\<rparr>)
         else (removed, m))))"

definition garbageCollectRooms :: "int \<Rightarrow> manager \<Rightarrow> string list \<times> manager" where
  "garbageCollectRooms now m = fold (gc_room now) (rooms m) ([], m)"

text \<open>\<^verbatim>\<open>room ? room.players.size : 0\<close>\<close>

definition players_in :: "string \<Rightarrow> manager \<Rightarrow> nat" where
  "players_in rid m = (case map_of (rooms m) rid of Some r \<Rightarrow> map_size (players r) | None \<Rightarrow> 0)"

section \<open>Round state machine\<close>

text \<open>Writing a mutated state object back under its room id.\<close>

definition store :: "string \<Rightarrow> gameState \<Rightarrow> manager \<Rightarrow> manager" where
  "store rid st m = m\<lparr>gameStates := AList.update rid st (gameStates m)\<rparr>"

definition getGameState :: "string \<Rightarrow> manager \<Rightarrow> gameState option" where
  "getGameState rid m = map_of (gameStates m) rid"

definition getRoom :: "string \<Rightarrow> manager \<Rightarrow> room option" where
  "getRoom rid m = map_of (rooms m) rid"

text \<open>\<^verbatim>\<open>hand.find(c => c.id === card.id)\<close>, with \<^verbatim>\<open>found || null\<close>.\<close>

definition find_card :: "string \<Rightarrow> card list \<Rightarrow> card option" where
  "find_card cid h = List.find (\<lambda>c. card_id c = cid) h"

text \<open>\<^verbatim>\<open>opts.add(x)\<close> on a \<^verbatim>\<open>Set\<close>, which keeps insertion order.\<close>

definition set_add :: "int list \<Rightarrow> int \<Rightarrow> int list" where
  "set_add s x = (if x \<in> set s then s else s @ [x])"

text \<open>
  One wrong answer: \<^verbatim>\<open>offset = Math.floor(Math.random() * 20) + 1\<close>, then
  \<^verbatim>\<open>wrong = correctAnswer + (Math.random() > 0.5 ? offset : -offset)\<close>, then
  \<^verbatim>\<open>Math.max(1, wrong)\<close>. It takes two draws.
\<close>

definition wrong_answer :: "rng \<Rightarrow> nat \<Rightarrow> int \<Rightarrow> int" where
  "wrong_answer rnd k c =
     (let offset = \<lfloor>Math_random rnd k * 20\<rfloor> + 1;
          wrong = c + (if Math_random rnd (Suc k) > 1 / 2 then offset else - offset)
      in max 1 wrong)"

text \<open>
  \<^verbatim>\<open>while (opts.size < 4) { ... opts.add(Math.max(1, wrong)); }\<close>. The loop runs until
  four distinct values are there; an oracle that keeps drawing values already present
  keeps it running forever, which is the result \<^const>\<open>None\<close>.
\<close>

partial_function (option) fill_options ::
  "rng \<Rightarrow> nat \<Rightarrow> int \<Rightarrow> int list \<Rightarrow> (int list \<times> nat) option" where
  "fill_options rnd k c opts =
     (if length opts < 4
      then fill_options rnd (k + 2) c (set_add opts (wrong_answer rnd k c))
      else Some (opts, k))"

declare fill_options.simps [code]

text \<open>
  \<^verbatim>\<open>Array.from(opts).sort(() => Math.random() - 0.5)\<close>. The comparator ignores its
  arguments, and the order a sort produces with such a comparator is left to the
  JavaScript engine. What stands for the engine here is an insertion sort that asks the
  comparator once per comparison: the element \<open>e\<close> moves left past \<open>t\<close> while
  \<^verbatim>\<open>comparefn(t, e) > 0\<close>. The first list argument of \<open>insert_random\<close> and the accumulator
  of \<open>sort_from\<close> hold the part already sorted, nearest element first.
\<close>

fun insert_random :: "rng \<Rightarrow> nat \<Rightarrow> int \<Rightarrow> int list \<Rightarrow> int list \<times> nat" where
  "insert_random rnd k e [] = ([e], k)"
| "insert_random rnd k e (t # ts) =
     (if Math_random rnd k - 1 / 2 > 0
      then (case insert_random rnd (Suc k) e ts of (r, k') \<Rightarrow> (t # r, k'))
      else (e # t # ts, Suc k))"

fun sort_from :: "rng \<Rightarrow> nat \<Rightarrow> int list \<Rightarrow> int list \<Rightarrow> int list \<times> nat" where
  "sort_from rnd k pre [] = (rev pre, k)"
| "sort_from rnd k pre (e # es) =
     (case insert_random rnd k e pre of (pre', k') \<Rightarrow> sort_from rnd k' pre' es)"

definition sort_random :: "rng \<Rightarrow> nat \<Rightarrow> int list \<Rightarrow> int list \<times> nat" where
  "sort_random rnd k xs = sort_from rnd k [] xs"

definition buildAnswerOptions :: "rng \<Rightarrow> nat \<Rightarrow> int \<Rightarrow> (int list \<times> nat) option" where
  "buildAnswerOptions rnd k c =
     (case fill_options rnd k c (set_add [] c) of
        None \<Rightarrow> None
      | Some (opts, k') \<Rightarrow> Some (sort_random rnd k' opts))"

text \<open>The room's \<^verbatim>\<open>transitioning\<close> flag, as \<^verbatim>\<open>room && room.transitioning\<close> reads it.\<close>

definition is_transitioning :: "string \<Rightarrow> manager \<Rightarrow> bool" where
  "is_transitioning rid m = (case map_of (rooms m) rid of Some r \<Rightarrow> transitioning r | None \<Rightarrow> False)"

text \<open>
  \<^verbatim>\<open>playerSelectCard(roomId, playerNumber, card)\<close>, with \<open>cid\<close> the \<^verbatim>\<open>card.id\<close> sent by
  the client. The outer \<^const>\<open>None\<close> is the call that never returns; inside, the result is
  the returned state (\<^verbatim>\<open>null\<close> when the room has no game), the manager and the index of
  the next draw.
\<close>

definition playerSelectCard ::
  "rng \<Rightarrow> nat \<Rightarrow> string \<Rightarrow> nat \<Rightarrow> string \<Rightarrow> manager
     \<Rightarrow> (gameState option \<times> manager \<times> nat) option" where
  "playerSelectCard rnd k rid pn cid m =
     (case map_of (gameStates m) rid of
        None \<Rightarrow> Some (None, m, k)
      | Some st0 \<Rightarrow>
         (let st = st0\<lparr>playersConnected := players_in rid m\<rparr>
          in if is_transitioning rid m then Some (Some st, store rid st m, k)
             else
              (let st1 = (if pn = 1
                          then st\<lparr>player1SelectedCard := find_card cid (player1Hand st)\<rparr>
                          else st\<lparr>player2SelectedCard := find_card cid (player2Hand st)\<rparr>)
               in case (player1SelectedCard st1, player2SelectedCard st1) of
                    (Some c1, Some c2) \<Rightarrow>
                      (let a = card_value c1; b = card_value c2; c = a * b
                       in case buildAnswerOptions rnd k c of
                            None \<Rightarrow> None
                          | Some (opts, k') \<Rightarrow>
                              (let st2 = st1\<lparr>currentProblem := Some (a, b),
                                               correctAnswer := c,
                                               answerOptions := opts,
                                               roundInProgress := True,
                                               problemSolved := False,
                                               solvedBy := None,
                                               player1Answered := False,
                                               player2Answered := False,
                                               submittedAnswers := (\<lambda>_. None),
                                               revealEquation := True\<rparr>
                               in Some (Some st2, store rid st2 m, k')))
                  | _ \<Rightarrow>
                      (let st2 = st1\<lparr>revealEquation := False\<rparr>
                       in Some (Some st2, store rid st2 m, k)))))"

text \<open>
  What \<^verbatim>\<open>playerSubmitAnswer\<close> returns: the bare state when the guard rejects the
  submission, \<^verbatim>\<open>{ state, isCorrect }\<close> when it is taken.
\<close>

datatype submit_result = Rejected gameState | Taken gameState bool

definition history_push :: "nat option \<Rightarrow> int \<Rightarrow> gameState \<Rightarrow> history_entry list" where
  "history_push who now st =
     history st @ [\<lparr>h_a = map_option fst (currentProblem st),
                     h_b = map_option snd (currentProblem st),
                     h_correctAnswer = correctAnswer st,
                     h_solvedBy = who, h_timestamp = now\<rparr>]"

definition playerSubmitAnswer ::
  "int \<Rightarrow> string \<Rightarrow> nat \<Rightarrow> int \<Rightarrow> manager \<Rightarrow> submit_result option \<times> manager" where
  "playerSubmitAnswer now rid pn answer m =
     (case map_of (gameStates m) rid of
        None \<Rightarrow> (None, m)
      | Some st0 \<Rightarrow>
         (let st = st0\<lparr>playersConnected := players_in rid m\<rparr>
          in if \<not> roundInProgress st \<or> problemSolved st
             then (Some (Rejected st), store rid st m)
             else
              (let isCorrect = (answer = correctAnswer st);
                   st1 = (if pn = 1 then st\<lparr>player1Answered := True\<rparr>
                          else st\<lparr>player2Answered := True\<rparr>);
                   st2 = st1\<lparr>submittedAnswers := (submittedAnswers st1)(pn := Some answer)\<rparr>
               in if isCorrect
                  then
                   (let st3 = (if pn = 1 then st2\<lparr>player1Score := player1Score st2 + 1\<rparr>
                               else st2\<lparr>player2Score := player2Score st2 + 1\<rparr>);
                        st4 = st3\<lparr>problemSolved := True, solvedBy := Some pn\<rparr>;
                        st5 = st4\<lparr>history := history_push (Some pn) now st4\<rparr>
                    in (Some (Taken st5 isCorrect), store rid st5 m))
                  else
                   (let otherAnswered = (if pn = 1 then player2Answered st2
                                         else player1Answered st2)
                    in if otherAnswered
                       then
                        (let st3 = st2\<lparr>problemSolved := True, solvedBy := None\<rparr>;
                             st4 = st3\<lparr>history := history_push None now st3\<rparr>
                         in (Some (Taken st4 isCorrect), store rid st4 m))
                       else (Some (Taken st2 isCorrect), store rid st2 m)))))"

text \<open>\<^verbatim>\<open>hand.filter(c => c.id !== selected.id)\<close>, when a card is selected.\<close>

definition remove_selected :: "card option \<Rightarrow> card list \<Rightarrow> card list" where
  "remove_selected sel h =
     (case sel of Some c \<Rightarrow> filter (\<lambda>x. card_id x \<noteq> card_id c) h | None \<Rightarrow> h)"

definition nextRound :: "string \<Rightarrow> manager \<Rightarrow> gameState option \<times> manager" where
  "nextRound rid m =
     (case map_of (gameStates m) rid of
        None \<Rightarrow> (None, m)
      | Some st \<Rightarrow>
         (let h1 = remove_selected (player1SelectedCard st) (player1Hand st);
              h2 = remove_selected (player2SelectedCard st) (player2Hand st);
              over = (length h1 = 0 \<or> length h2 = 0);
              w = (if over
                   then (if player1Score st > player2Score st then Some ''player1''
                         else if player2Score st > player1Score st then Some ''player2''
                         else None)
                   else winner st);
              st' = st\<lparr>player1Hand := h1, player2Hand := h2,
                       gameOver := over, winner := w,
                       player1SelectedCard := None, player2SelectedCard := None,
                       player1Answered := False, player2Answered := False,
                       submittedAnswers := (\<lambda>_. None),
                       currentProblem := None, answerOptions := [], correctAnswer := 0,
                       problemSolved := False, solvedBy := None,
                       roundInProgress := False, revealEquation := False,
                       dealComplete := True, advanceClients := True,
                       playersConnected := players_in rid m\<rparr>
          in (Some st', store rid st' m)))"

text \<open>
  \<^verbatim>\<open>resetGameState(roomId)\<close>: the state is deleted, \<^verbatim>\<open>initGameState(roomId)\<close> is called
  with no options, and the two client flags of the new state are set to false.
\<close>

definition resetGameState ::
  "rng \<Rightarrow> nat \<Rightarrow> string \<Rightarrow> manager \<Rightarrow> gameState option \<times> manager \<times> nat" where
  "resetGameState rnd k rid m =
     (case initGameState rnd k rid \<lparr>opt_difficulty = None, opt_initialCards = None\<rparr>
             (m\<lparr>gameStates := AList.delete rid (gameStates m)\<rparr>) of
        (None, m', k') \<Rightarrow> (None, m', k')
      | (Some s, m', k') \<Rightarrow>
          (let s' = s\<lparr>dealComplete := False, advanceClients := False\<rparr>
           in (Some s', store rid s' m', k')))"

section \<open>Event handlers of the server\<close>

text \<open>
  \<^verbatim>\<open>index.js\<close> keeps, beside the room manager, the pending rematch requests
  (\<^verbatim>\<open>Map<roomId, Set<playerNumber>>\<close>) and the pending automatic-advance timers
  (\<^verbatim>\<open>Map<roomId, Timeout>\<close>). Node runs every handler and every timer callback to its
  end before the next one starts, so a handler is a function from server state to
  server state, and a timer is pending exactly while its room id is in
  \<open>nextRoundTimers\<close>: \<^verbatim>\<open>clearTimeout\<close> removes it before it has run.
\<close>

record server =
  mgr :: manager
  rematchRequests :: "(string \<times> nat list) list"
  nextRoundTimers :: "string list"

definition new_server :: server where
  "new_server = \<lparr>mgr = new_manager, rematchRequests = [], nextRoundTimers = []\<rparr>"

text \<open>\<^verbatim>\<open>const r = roomManager.getRoom(roomId); if (r) r.transitioning = b;\<close>\<close>

definition set_transitioning :: "string \<Rightarrow> bool \<Rightarrow> manager \<Rightarrow> manager" where
  "set_transitioning rid b m =
     (case map_of (rooms m) rid of
        None \<Rightarrow> m
      | Some r \<Rightarrow> m\<lparr>rooms := AList.update rid (r\<lparr>transitioning := b\<rparr>) (rooms m)\<rparr>)"

text \<open>
  The handlers write the two client flags on \<^verbatim>\<open>payload.data\<close>, which is the state
  object of the manager itself.
\<close>

definition set_client_flags :: "string \<Rightarrow> bool \<Rightarrow> bool \<Rightarrow> manager \<Rightarrow> manager" where
  "set_client_flags rid adv deal m =
     (case map_of (gameStates m) rid of
        None \<Rightarrow> m
      | Some st \<Rightarrow> store rid (st\<lparr>advanceClients := adv, dealComplete := deal\<rparr>) m)"

definition scheduleAutoNextRound :: "string \<Rightarrow> server \<Rightarrow> server" where
  "scheduleAutoNextRound rid srv =
     (if rid \<in> set (nextRoundTimers srv) then srv
      else srv\<lparr>mgr := set_transitioning rid True (mgr srv),
               nextRoundTimers := nextRoundTimers srv @ [rid]\<rparr>)"

definition clearAutoNextRound :: "string \<Rightarrow> server \<Rightarrow> server" where
  "clearAutoNextRound rid srv =
     (if rid \<in> set (nextRoundTimers srv)
      then srv\<lparr>mgr := set_transitioning rid False (mgr srv),
               nextRoundTimers := removeAll rid (nextRoundTimers srv)\<rparr>
      else srv)"

text \<open>
  The callback that \<^verbatim>\<open>scheduleAutoNextRound\<close> hands to \<^verbatim>\<open>setTimeout\<close>. It runs only if
  its timer is still pending; its \<^verbatim>\<open>finally\<close> block clears the flag and the timer.
\<close>

definition autoNextRound_fires :: "string \<Rightarrow> server \<Rightarrow> server" where
  "autoNextRound_fires rid srv =
     (if rid \<notin> set (nextRoundTimers srv) then srv
      else
       (case getRoom rid (mgr srv) of
          None \<Rightarrow> srv\<lparr>nextRoundTimers := removeAll rid (nextRoundTimers srv)\<rparr>
        | Some r \<Rightarrow>
           (case nextRound rid (mgr srv) of
              (None, m') \<Rightarrow>
                srv\<lparr>mgr := set_transitioning rid False m',
                     nextRoundTimers := removeAll rid (nextRoundTimers srv)\<rparr>
            | (Some st, m') \<Rightarrow>
                srv\<lparr>mgr := set_transitioning rid False
                              (set_client_flags rid True (dealComplete st) m'),
                     nextRoundTimers := removeAll rid (nextRoundTimers srv)\<rparr>)))"

text \<open>
  The \<^verbatim>\<open>gameSync\<close> handler starts with \<^verbatim>\<open>if (!message || !message.roomId) return\<close> and
  \<^verbatim>\<open>if (!room) return\<close>.
\<close>

definition gameSync_guard :: "string \<Rightarrow> server \<Rightarrow> bool" where
  "gameSync_guard rid srv = (rid \<noteq> [] \<and> getRoom rid (mgr srv) \<noteq> None)"

text \<open>\<^verbatim>\<open>message.type === 'nextRound'\<close>\<close>

definition on_nextRound :: "string \<Rightarrow> server \<Rightarrow> server" where
  "on_nextRound rid srv =
     (if \<not> gameSync_guard rid srv then srv
      else
       (let srv1 = clearAutoNextRound rid srv
        in case nextRound rid (mgr srv1) of
             (None, m') \<Rightarrow> srv1\<lparr>mgr := m'\<rparr>
           | (Some st, m') \<Rightarrow>
               srv1\<lparr>mgr := set_client_flags rid True (dealComplete st) m'\<rparr>))"

text \<open>
  \<^verbatim>\<open>message.type === 'answerSubmitted'\<close>. When the manager returns the bare state,
  \<^verbatim>\<open>res.state\<close> is undefined, reading \<^verbatim>\<open>res.state.problemSolved\<close> throws and the handler's
  \<^verbatim>\<open>catch\<close> ends it there.
\<close>

definition on_answerSubmitted :: "int \<Rightarrow> string \<Rightarrow> nat \<Rightarrow> int \<Rightarrow> server \<Rightarrow> server" where
  "on_answerSubmitted now rid pn answer srv =
     (if \<not> gameSync_guard rid srv then srv
      else
       (case playerSubmitAnswer now rid pn answer (mgr srv) of
          (None, m') \<Rightarrow> srv\<lparr>mgr := m'\<rparr>
        | (Some (Rejected st), m') \<Rightarrow> srv\<lparr>mgr := m'\<rparr>
        | (Some (Taken st ok), m') \<Rightarrow>
            (if problemSolved st
             then scheduleAutoNextRound rid
                    (srv\<lparr>mgr := set_client_flags rid False (dealComplete st) m'\<rparr>)
             else srv\<lparr>mgr := set_client_flags rid (advanceClients st) (dealComplete st) m'\<rparr>)))"

text \<open>\<^verbatim>\<open>message.type === 'resetGame'\<close>\<close>

definition on_resetGame :: "rng \<Rightarrow> nat \<Rightarrow> string \<Rightarrow> server \<Rightarrow> server \<times> nat" where
  "on_resetGame rnd k rid srv =
     (if \<not> gameSync_guard rid srv then (srv, k)
      else
       (case resetGameState rnd k rid (mgr srv) of
          (None, m', k') \<Rightarrow> (srv\<lparr>mgr := m'\<rparr>, k')
        | (Some st, m', k') \<Rightarrow>
            (srv\<lparr>mgr := m', rematchRequests := AList.delete rid (rematchRequests srv)\<rparr>, k')))"

datatype ack = AckError string | AckOk | AckWaiting | AckBothConfirmed

text \<open>\<^verbatim>\<open>requests.add(playerNumber)\<close> on the room's \<^verbatim>\<open>Set\<close>, created when absent.\<close>

definition add_request :: "string \<Rightarrow> nat \<Rightarrow> (string \<times> nat list) list \<Rightarrow> (string \<times> nat list) list" where
  "add_request rid pn reqs =
     (let cur = (case map_of reqs rid of Some ps \<Rightarrow> ps | None \<Rightarrow> [])
      in AList.update rid (if pn \<in> set cur then cur else cur @ [pn]) reqs)"

text \<open>\<^verbatim>\<open>socket.on('requestRematch', ({ roomId, playerNumber }, callback) => ...)\<close>\<close>

definition requestRematch :: "rng \<Rightarrow> nat \<Rightarrow> string \<Rightarrow> nat \<Rightarrow> server \<Rightarrow> ack \<times> server \<times> nat" where
  "requestRematch rnd k rid pn srv =
     (if rid = [] \<or> pn = 0 then (AckError ''Missing roomId or playerNumber'', srv, k)
      else
       (case getRoom rid (mgr srv) of
          None \<Rightarrow> (AckError ''Room not found'', srv, k)
        | Some r \<Rightarrow>
           (let reqs = add_request rid pn (rematchRequests srv);
                srv1 = srv\<lparr>rematchRequests := reqs\<rparr>
            in if length (or_else (map_of reqs rid) []) \<ge> 2
               then
                (let d = or_else (truthy_str (room_difficulty r)) ''easy'';
                     n = or_else (truthy_num (room_initialCards r)) 6
                 in case initGameState rnd k rid
                           \<lparr>opt_difficulty = Some d, opt_initialCards = Some n\<rparr> (mgr srv1) of
                      (None, m', k') \<Rightarrow> (AckError ''Failed to reset game'', srv1\<lparr>mgr := m'\<rparr>, k')
                    | (Some st, m', k') \<Rightarrow>
                        (AckBothConfirmed,
                         srv1\<lparr>mgr := set_client_flags rid False False m',
                               rematchRequests := AList.delete rid reqs\<rparr>, k'))
               else (AckWaiting, srv1, k))))"

text \<open>
  \<^verbatim>\<open>pickNumber(...vals)\<close>: the first value that is a finite number above 0, else
  \<^verbatim>\<open>null\<close>. The list holds the synonyms of the payload in the order of the call.
\<close>

definition pickNumber :: "int option list \<Rightarrow> int option" where
  "pickNumber vals =
     (case List.find (\<lambda>v. case v of Some n \<Rightarrow> n > 0 | None \<Rightarrow> False) vals of
        Some v \<Rightarrow> v | None \<Rightarrow> None)"

text \<open>
  \<^verbatim>\<open>socket.on('startGame', (payload, callback) => ...)\<close> for the socket \<open>sid\<close>;
  \<open>pdiff\<close> is \<^verbatim>\<open>payload.difficulty || payload.options?.difficulty\<close>.
\<close>

definition startGame ::
  "rng \<Rightarrow> nat \<Rightarrow> string \<Rightarrow> string \<Rightarrow> string option \<Rightarrow> int option list \<Rightarrow> server
     \<Rightarrow> ack \<times> server \<times> nat" where
  "startGame rnd k sid rid pdiff vals srv =
     (if rid = [] then (AckError ''Missing roomId'', srv, k)
      else
       (case getRoom rid (mgr srv) of
          None \<Rightarrow> (AckError ''Room not found'', srv, k)
        | Some r \<Rightarrow>
           (case map_of (players r) sid of
              None \<Rightarrow> (AckError ''Not in room'', srv, k)
            | Some p \<Rightarrow>
               if playerNumber p \<noteq> 1
               then (AckError ''Only the room creator can start the game'', srv, k)
               else
                (let d = or_else (truthy_str pdiff)
                           (or_else (truthy_str (room_difficulty r)) ''easy'');
                     n = (case truthy_num (pickNumber vals) of
                            Some v \<Rightarrow> Some v
                          | None \<Rightarrow> truthy_num (room_initialCards r))
                 in if map_size (players r) < 2
                    then (AckError ''Need two players to start'', srv, k)
                    else
                     (case initGameState rnd k rid
                             \<lparr>opt_difficulty = Some d, opt_initialCards = n\<rparr> (mgr srv) of
                        (None, m', k') \<Rightarrow> (AckError ''Failed to init game'', srv\<lparr>mgr := m'\<rparr>, k')
                      | (Some st, m', k') \<Rightarrow>
                          (AckOk, srv\<lparr>mgr := set_client_flags rid False False m'\<rparr>, k'))))))"

section \<open>Reachable states\<close>

text \<open>
  Everything that writes to the manager's rooms and game states: the methods of the
  room manager, called with any arguments in any order, and the places where
  \<^verbatim>\<open>index.js\<close> writes to a room or a state object directly (the \<^verbatim>\<open>transitioning\<close> flag,
  \<^verbatim>\<open>delete room.lastEmptyAt\<close> in the join handler, the room options of
  \<^verbatim>\<open>setRoomOptions\<close>, and the client flags on \<^verbatim>\<open>payload.data\<close>). Every handler of the
  server is a sequence of these, so the states the server can be in are among the
  states reached by lists of operations from the empty manager.
\<close>

definition clear_lastEmptyAt :: "string \<Rightarrow> manager \<Rightarrow> manager" where
  "clear_lastEmptyAt rid m =
     (case map_of (rooms m) rid of
        None \<Rightarrow> m
      | Some r \<Rightarrow>
          (if truthy_num (lastEmptyAt r) \<noteq> None
           then m\<lparr>rooms := AList.update rid (r\<lparr>lastEmptyAt := None\<rparr>) (rooms m)\<rparr>
           else m))"

text \<open>
  \<^verbatim>\<open>if (difficulty) room.difficulty = difficulty; if (initialCards) room.initialCards =
  initialCards; room.options = { difficulty: room.difficulty, initialCards:
  room.initialCards }\<close>
\<close>

definition setRoomOptions :: "string \<Rightarrow> string option \<Rightarrow> int option \<Rightarrow> manager \<Rightarrow> manager" where
  "setRoomOptions rid d n m =
     (case map_of (rooms m) rid of
        None \<Rightarrow> m
      | Some r \<Rightarrow>
          (let d' = (case truthy_str d of Some v \<Rightarrow> Some v | None \<Rightarrow> room_difficulty r);
               n' = (case truthy_num n of Some v \<Rightarrow> Some v | None \<Rightarrow> room_initialCards r)
           in m\<lparr>rooms := AList.update rid
                  (r\<lparr>room_difficulty := d', room_initialCards := n',
                     room_options := Some (d', n')\<rparr>) (rooms m)\<rparr>))"

datatype op =
    CreateRoom string string string int string
  | JoinRoom string int string string
  | LeaveRoom string
  | SetPlayerStatus string string string
  | InitGame rng nat string init_options
  | SelectCard rng nat string nat string
  | SubmitAnswer int string nat int
  | NextRound string
  | ResetGame rng nat string
  | CollectGarbage int
  | SetTransitioning string bool
  | ClearLastEmptyAt string
  | SetRoomOptions string "string option" "int option"
  | SetClientFlags string bool bool

text \<open>One operation; \<^const>\<open>None\<close> when the call does not return.\<close>

fun apply_op :: "op \<Rightarrow> manager \<Rightarrow> manager option" where
  "apply_op (CreateRoom rid pid rname now sid) m = Some (snd (createRoom rid pid rname now sid m))"
| "apply_op (JoinRoom pid now rid sid) m = Some (snd (joinRoom pid now rid sid m))"
| "apply_op (LeaveRoom sid) m = Some (snd (leaveRoomBySocket sid m))"
| "apply_op (SetPlayerStatus rid sid s) m = Some (snd (setPlayerStatus rid sid s m))"
| "apply_op (InitGame rnd k rid opts) m = Some (fst (snd (initGameState rnd k rid opts m)))"
| "apply_op (SelectCard rnd k rid pn cid) m =
     map_option (\<lambda>res. fst (snd res)) (playerSelectCard rnd k rid pn cid m)"
| "apply_op (SubmitAnswer now rid pn answer) m = Some (snd (playerSubmitAnswer now rid pn answer m))"
| "apply_op (NextRound rid) m = Some (snd (nextRound rid m))"
| "apply_op (ResetGame rnd k rid) m = Some (fst (snd (resetGameState rnd k rid m)))"
| "apply_op (CollectGarbage now) m = Some (snd (garbageCollectRooms now m))"
| "apply_op (SetTransitioning rid b) m = Some (set_transitioning rid b m)"
| "apply_op (ClearLastEmptyAt rid) m = Some (clear_lastEmptyAt rid m)"
| "apply_op (SetRoomOptions rid d n) m = Some (setRoomOptions rid d n m)"
| "apply_op (SetClientFlags rid adv deal) m = Some (set_client_flags rid adv deal m)"

fun run :: "op list \<Rightarrow> manager \<Rightarrow> manager option" where
  "run [] m = Some m"
| "run (x # xs) m = (case apply_op x m of None \<Rightarrow> None | Some m' \<Rightarrow> run xs m')"

section \<open>Concrete scenarios\<close>

text \<open>Inputs at which the theorems below are evaluated.\<close>

definition zero_rng :: rng where
  "zero_rng = (\<lambda>_. 0)"

definition lobby1 :: manager where
  "lobby1 = snd (createRoom ''ROOM01'' ''player_a'' ''happy-fox'' 0 ''s1'' new_manager)"

definition lobby2 :: manager where
  "lobby2 = snd (joinRoom ''player_b'' 1 ''ROOM01'' ''s2'' lobby1)"

definition hand_sizes :: "gameState option \<Rightarrow> (nat \<times> nat) option" where
  "hand_sizes s = map_option (\<lambda>st. (length (player1Hand st), length (player2Hand st))) s"

definition demo_rng :: rng where
  "demo_rng = (\<lambda>k. of_nat k / 10)"

text \<open>
  A game of the test difficulty (one card each: the 3 and the 4 of hearts) with both
  cards selected, so that the problem \<open>3 \<times> 4\<close> is open.
\<close>

definition playing :: manager where
  "playing = or_else (run [CreateRoom ''ROOM01'' ''player_a'' ''happy-fox'' 0 ''s1'',
       JoinRoom ''player_b'' 1 ''ROOM01'' ''s2'',
       InitGame zero_rng 0 ''ROOM01'' \<lparr>opt_difficulty = Some ''test'', opt_initialCards = None\<rparr>,
       SelectCard demo_rng 0 ''ROOM01'' 1 ''hearts-3-1'',
       SelectCard demo_rng 0 ''ROOM01'' 2 ''hearts-4-2''] new_manager) new_manager"

text \<open>The same game after player 1 has answered 11.\<close>

definition answered_wrong :: manager where
  "answered_wrong = snd (playerSubmitAnswer 5 ''ROOM01'' 1 11 playing)"

text \<open>A list of submissions \<open>(time, player, answer)\<close> to one room, in order.\<close>

fun submit_all :: "string \<Rightarrow> (int \<times> nat \<times> int) list \<Rightarrow> manager \<Rightarrow> manager" where
  "submit_all rid [] m = m"
| "submit_all rid ((now, pn, a) # xs) m =
     submit_all rid xs (snd (playerSubmitAnswer now rid pn a m))"

text \<open>
  What holds of the state \<open>st'\<close> reached from \<open>st\<close> by wrong answers of the players in
  \<open>seen\<close>.
\<close>

definition wrong_inv :: "gameState \<Rightarrow> nat set \<Rightarrow> gameState \<Rightarrow> bool" where
  "wrong_inv st seen st' \<longleftrightarrow>
     player1Score st' = player1Score st \<and> player2Score st' = player2Score st
   \<and> correctAnswer st' = correctAnswer st \<and> roundInProgress st'
   \<and> (problemSolved st' \<longrightarrow> solvedBy st' = None \<and> length (history st') = Suc (length (history st))
          \<and> butlast (history st') = history st \<and> h_solvedBy (last (history st')) = None)
   \<and> (\<not> problemSolved st' \<longrightarrow> (1 \<in> seen \<longrightarrow> player1Answered st') \<and> (2 \<in> seen \<longrightarrow> player2Answered st')
          \<and> \<not> (1 \<in> seen \<and> 2 \<in> seen) \<and> history st' = history st)"

text \<open>
  The invariant of the room registry behind the idle-room sweep: no room carries a
  \<^verbatim>\<open>lastEmptyAt\<close> timestamp and no room is without members.
\<close>

definition rooms_inv :: "manager \<Rightarrow> bool" where
  "rooms_inv m \<longleftrightarrow> (\<forall>e \<in> set (rooms m). lastEmptyAt (snd e) = None \<and> players (snd e) \<noteq> [])"

text \<open>A room with one member left, after the second player has left the lobby.\<close>

definition after_leave :: manager where
  "after_leave = snd (leaveRoomBySocket ''s2'' lobby2)"

text \<open>
  The game of \<open>playing\<close> after player 2 has given the right answer (the server has
  scheduled the automatic advance and set \<^verbatim>\<open>transitioning\<close>) and has then left the room
  with a \<^verbatim>\<open>leaveRoom\<close> event, which leaves the timer pending.
\<close>

definition transition_left :: manager where
  "transition_left = snd (leaveRoomBySocket ''s2''
      (mgr (on_answerSubmitted 5 ''ROOM01'' 2 12 (new_server\<lparr>mgr := playing\<rparr>))))"

definition connected :: "string \<Rightarrow> manager \<Rightarrow> nat option" where
  "connected rid m = map_option playersConnected (getGameState rid m)"

text \<open>The state a call of \<open>playerSelectCard\<close> returned, if it returned one.\<close>

definition returned_state :: "(gameState option \<times> manager \<times> nat) option \<Rightarrow> gameState option" where
  "returned_state res = (case res of Some (Some st, m, k) \<Rightarrow> Some st | _ \<Rightarrow> None)"

text \<open>
  A game with two cards each (player 1 holds the 3 and the 4 of hearts, player 2 the 5
  and the 6), the 3 and the 5 selected, and the server after player 2 has answered 15:
  the automatic advance is scheduled.
\<close>

definition playing2 :: manager where
  "playing2 = or_else (run [CreateRoom ''ROOM01'' ''player_a'' ''happy-fox'' 0 ''s1'',
       JoinRoom ''player_b'' 1 ''ROOM01'' ''s2'',
       InitGame zero_rng 0 ''ROOM01'' \<lparr>opt_difficulty = None, opt_initialCards = Some 2\<rparr>,
       SelectCard demo_rng 0 ''ROOM01'' 1 ''hearts-3-1'',
       SelectCard demo_rng 0 ''ROOM01'' 2 ''hearts-5-3''] new_manager) new_manager"

definition solved_srv :: server where
  "solved_srv = on_answerSubmitted 5 ''ROOM01'' 2 15 (new_server\<lparr>mgr := playing2\<rparr>)"

text \<open>
  The creator leaves a lobby of two and a third socket joins.
\<close>

definition rejoined :: manager where
  "rejoined = or_else (run [CreateRoom ''ROOM01'' ''player_a'' ''happy-fox'' 0 ''s1'',
       JoinRoom ''player_b'' 1 ''ROOM01'' ''s2'',
       LeaveRoom ''s1'',
       JoinRoom ''player_c'' 2 ''ROOM01'' ''s3''] new_manager) new_manager"

text \<open>\<^verbatim>\<open>Array.from(room.players.values()).map(p => p.playerNumber)\<close>, as in the presence
  broadcast.\<close>

definition playersPresent :: "string \<Rightarrow> manager \<Rightarrow> nat list" where
  "playersPresent rid m =
     (case getRoom rid m of Some r \<Rightarrow> map (\<lambda>e. playerNumber (snd e)) (players r) | None \<Rightarrow> [])"

text \<open>
  A lobby of two in which player 1 has asked for a rematch, and the server after the
  creator has then started a game.
\<close>

definition rematch_pending :: server where
  "rematch_pending = fst (snd (requestRematch zero_rng 0 ''ROOM01'' 1 (new_server\<lparr>mgr := lobby2\<rparr>)))"

definition started :: server where
  "started = fst (snd (startGame zero_rng 0 ''s1'' ''ROOM01'' None [] rematch_pending))"




definition count_rng :: "nat \<Rightarrow> rng" where
  "count_rng k0 = (\<lambda>i. if even (i - k0) then of_nat ((i - k0) div 2) / 20 else 3 / 4)"


text \<open>
  The invariant of the hands: card ids are distinct within each hand, and a selected
  card is a card of its player's hand.
\<close>

definition hands_ok :: "gameState \<Rightarrow> bool" where
  "hands_ok st \<longleftrightarrow>
     distinct (map card_id (player1Hand st)) \<and> distinct (map card_id (player2Hand st))
   \<and> (\<forall>c. player1SelectedCard st = Some c \<longrightarrow> c \<in> set (player1Hand st))
   \<and> (\<forall>c. player2SelectedCard st = Some c \<longrightarrow> c \<in> set (player2Hand st))"

definition games_inv :: "manager \<Rightarrow> bool" where
  "games_inv m \<longleftrightarrow> (\<forall>e \<in> set (gameStates m). hands_ok (snd e))"

text \<open>The test game after player 2 has answered 12.\<close>

definition answered_right :: manager where
  "answered_right = snd (playerSubmitAnswer 5 ''ROOM01'' 2 12 playing)"

text \<open>The bounds on a room's members that do hold in every reachable state.\<close>

definition members_ok :: "room \<Rightarrow> bool" where
  "members_ok r \<longleftrightarrow> map_size (players r) \<le> 2
     \<and> (\<forall>e \<in> set (players r). playerNumber (snd e) = 1 \<or> playerNumber (snd e) = 2)"

definition members_inv :: "manager \<Rightarrow> bool" where
  "members_inv m \<longleftrightarrow> (\<forall>e \<in> set (rooms m). members_ok (snd e))"

section \<open>The deck and the deal\<close>

lemma deck_len: "length build_deck = 44"
  by code_simp

lemma deck_distinct: "distinct (map card_id build_deck)"
  by code_simp

lemma deck_vals: "list_all (\<lambda>c. 2 \<le> card_value c \<and> card_value c \<le> 12) build_deck"
  by code_simp

lemma deck_combos:
  "map (\<lambda>c. (card_suit c, card_value c)) build_deck = List.product suits [2..12]"
  by code_simp

lemma rand_index: "nat \<lfloor>Math_random rnd k * of_nat (Suc n)\<rfloor> < Suc n"
proof -
  have a: "0 \<le> frac (rnd k)" "frac (rnd k) < 1"
    by (rule frac_ge_0, rule frac_lt_1)
  have "frac (rnd k) * of_nat (Suc n) < of_nat (Suc n)"
    using a by (simp add: mult_less_cancel_right2 del: of_nat_Suc)
  hence "\<lfloor>frac (rnd k) * of_nat (Suc n)\<rfloor> < int (Suc n)"
    by (simp add: floor_less_iff del: of_nat_Suc)
  thus ?thesis unfolding Math_random_def by linarith
qed

lemma shuffle_from_mset: "i < length xs \<Longrightarrow> mset (fst (shuffle_from rnd k i xs)) = mset xs"
proof (induction i arbitrary: xs k)
  case 0
  thus ?case by simp
next
  case (Suc i)
  let ?j = "nat \<lfloor>Math_random rnd k * of_nat (Suc i + 1)\<rfloor>"
  have "?j < Suc i + 1" using rand_index[of rnd k "Suc i"] by simp
  hence jl: "?j < length xs" using Suc.prems by simp
  have "mset (xs[Suc i := xs ! ?j, ?j := xs ! Suc i]) = mset xs"
    using mset_swap[of "?j" xs "Suc i"] jl Suc.prems by simp
  moreover have "i < length (xs[Suc i := xs ! ?j, ?j := xs ! Suc i])"
    using Suc.prems by simp
  ultimately show ?case
    using Suc.IH[of "xs[Suc i := xs ! ?j, ?j := xs ! Suc i]" "Suc k"] by (simp add: Let_def)
qed

lemma shuffle_deck_mset: "mset (fst (shuffle rnd k build_deck)) = mset build_deck"
  unfolding shuffle_def by (rule shuffle_from_mset) (simp add: deck_len)

lemma shuffle_deck_length: "length (fst (shuffle rnd k build_deck)) = 44"
  using mset_eq_length[OF shuffle_deck_mset[of rnd k]] by (simp add: deck_len)

lemma shuffle_deck_set: "set (fst (shuffle rnd k build_deck)) = set build_deck"
  using mset_eq_setD[OF shuffle_deck_mset[of rnd k]] .

lemma shuffle_deck_distinct: "distinct (map card_id (fst (shuffle rnd k build_deck)))"
proof -
  have "mset (map card_id (fst (shuffle rnd k build_deck))) = mset (map card_id build_deck)"
    using shuffle_deck_mset[of rnd k] by (metis mset_map)
  thus ?thesis using deck_distinct mset_eq_imp_distinct_iff by blast
qed

lemma initGameState_hands:
  assumes "map_of (rooms m) rid = Some r"
  shows "\<exists>st m' k'. initGameState rnd k rid opts m = (Some st, m', k')
           \<and> map_of (gameStates m') rid = Some st
           \<and> initialCards st = or_else (truthy_num (opt_initialCards opts))
                    (or_else (truthy_num (room_initialCards r))
                      (or_else (truthy_num (difficultyDefaults (difficulty st))) 6))
           \<and> player1Hand st = take (nat (initialCards st)) (fst (shuffle rnd k build_deck))
           \<and> player2Hand st = take (nat (initialCards st))
                 (drop (nat (initialCards st)) (fst (shuffle rnd k build_deck)))
           \<and> player1SelectedCard st = None \<and> player2SelectedCard st = None"
  using assms
  by (simp add: initGameState_def Let_def splice0_def update_conv' split: prod.splits)

lemma dealt_distinct:
  "distinct (map card_id (take a (fst (shuffle rnd k build_deck)) @
      take b (drop a (fst (shuffle rnd k build_deck)))))"
proof -
  let ?sh = "fst (shuffle rnd k build_deck)"
  have "take a ?sh @ take b (drop a ?sh) = take (a + b) ?sh"
    by (simp add: take_add)
  thus ?thesis using shuffle_deck_distinct[of rnd k]
    by (simp add: take_map[symmetric] del: map_append)
qed

lemma lobby1_room:
  "map_of (rooms lobby1) ''ROOM01'' =
     Some \<lparr>roomId = ''ROOM01'', name = ''happy-fox'',
           players = [(''s1'', \<lparr>playerId = ''player_a'', playerNumber = 1,
                                socketId = ''s1'', status = ''lobby''\<rparr>)],
           createdAt = 0, lastActivity = 0, room_difficulty = None,
           room_initialCards = None, room_options = None, transitioning = False,
           lastEmptyAt = None\<rparr>"
  by (simp add: lobby1_def createRoom_def new_manager_def)

text \<open>
  C4, as the code has it. For a room that exists and a requested hand size \<open>n\<close> with
  \<open>1 \<le> n\<close> and \<open>2 n \<le> 44\<close>, \<open>initGameState\<close> returns a state, stores it under the room
  id, and in it each hand has exactly \<open>n\<close> cards, every card is a card of the deck with
  a value from 2 to 12, and no card id occurs twice in the two hands together (so none
  occurs in both). The deck has 44 cards, one for each pair of the 4 suits and the
  values 2 to 12. A requested size of 0 is not covered: \<^verbatim>\<open>options.initialCards || ...\<close>
  treats it as absent and falls back to the room's size or the difficulty's default.
\<close>

theorem initGameState_deals:
  assumes room: "map_of (rooms m) rid = Some r"
    and opt: "opt_initialCards opts = Some n"
    and pos: "1 \<le> n" and fits: "2 * n \<le> 44"
  shows "\<exists>st m' k'. initGameState rnd k rid opts m = (Some st, m', k')
           \<and> getGameState rid m' = Some st
           \<and> int (length (player1Hand st)) = n \<and> int (length (player2Hand st)) = n
           \<and> (\<forall>c \<in> set (player1Hand st) \<union> set (player2Hand st).
                 c \<in> set build_deck \<and> 2 \<le> card_value c \<and> card_value c \<le> 12)
           \<and> distinct (map card_id (player1Hand st @ player2Hand st))
           \<and> card_id ` set (player1Hand st) \<inter> card_id ` set (player2Hand st) = {}
           \<and> length build_deck = 44
           \<and> distinct (map (\<lambda>c. (card_suit c, card_value c)) build_deck)
           \<and> set (map (\<lambda>c. (card_suit c, card_value c)) build_deck) = set suits \<times> {2..12}
           \<and> length suits = 4"
proof -
  let ?sh = "fst (shuffle rnd k build_deck)"
  obtain st m' k' where res: "initGameState rnd k rid opts m = (Some st, m', k')"
    and stored: "map_of (gameStates m') rid = Some st"
    and ic: "initialCards st = or_else (truthy_num (opt_initialCards opts))
                    (or_else (truthy_num (room_initialCards r))
                      (or_else (truthy_num (difficultyDefaults (difficulty st))) 6))"
    and h1: "player1Hand st = take (nat (initialCards st)) ?sh"
    and h2: "player2Hand st = take (nat (initialCards st)) (drop (nat (initialCards st)) ?sh)"
    using initGameState_hands[OF room, of rnd k opts] by blast
  have n: "initialCards st = n"
    using ic opt pos by (simp add: truthy_num_def or_else_def)
  have l1: "int (length (player1Hand st)) = n"
    using h1 n pos fits by (simp add: shuffle_deck_length)
  have l2: "int (length (player2Hand st)) = n"
    using h2 n pos fits by (simp add: shuffle_deck_length)
  have sub: "set (player1Hand st) \<union> set (player2Hand st) \<subseteq> set build_deck"
    using h1 h2 set_take_subset[of "nat n" ?sh] set_take_subset[of "nat n" "drop (nat n) ?sh"]
      set_drop_subset[of "nat n" ?sh] n shuffle_deck_set[of rnd k] by auto
  have vals: "\<forall>c \<in> set (player1Hand st) \<union> set (player2Hand st).
                 c \<in> set build_deck \<and> 2 \<le> card_value c \<and> card_value c \<le> 12"
    using sub deck_vals by (auto simp: list_all_iff)
  have dist: "distinct (map card_id (player1Hand st @ player2Hand st))"
    unfolding h1 h2 by (rule dealt_distinct)
  have disj: "card_id ` set (player1Hand st) \<inter> card_id ` set (player2Hand st) = {}"
    using dist by auto
  have d1: "distinct (map (\<lambda>c. (card_suit c, card_value c)) build_deck)"
    unfolding deck_combos by (rule distinct_product) (simp_all add: suits_def)
  have d2: "set (map (\<lambda>c. (card_suit c, card_value c)) build_deck) = set suits \<times> {2..12}"
    unfolding deck_combos by (simp only: set_product set_upto)
  show ?thesis
    using res stored l1 l2 vals dist disj deck_len d1 d2
    by (simp add: getGameState_def suits_def)
qed

theorem initGameState_deals_witness:
  "getRoom ''ROOM01'' lobby1 \<noteq> None \<and> (1::int) \<le> 2 \<and> 2 * (2::int) \<le> 44
   \<and> hand_sizes (fst (initGameState zero_rng 0 ''ROOM01''
        \<lparr>opt_difficulty = None, opt_initialCards = Some 2\<rparr> lobby1)) = Some (2, 2)"
proof -
  have opt: "opt_initialCards \<lparr>opt_difficulty = None, opt_initialCards = Some 2\<rparr> = Some 2"
    by simp
  have pos: "(1::int) \<le> 2" and fits: "2 * (2::int) \<le> 44"
    by simp_all
  obtain st m' k' where
    "initGameState zero_rng 0 ''ROOM01''
        \<lparr>opt_difficulty = None, opt_initialCards = Some 2\<rparr> lobby1 = (Some st, m', k')"
    and "int (length (player1Hand st)) = 2" and "int (length (player2Hand st)) = 2"
    using initGameState_deals[OF lobby1_room opt pos fits, of zero_rng 0] by blast
  thus ?thesis
    by (simp add: hand_sizes_def getRoom_def lobby1_room)
qed

text \<open>
  C4 as stated fails at \<open>n = 0\<close>, where \<open>2 n \<le> 44\<close> holds: in a fresh room, asking
  for hands of 0 cards deals 6 cards to each player.
\<close>

theorem initGameState_zero_hand_size:
  "hand_sizes (fst (initGameState zero_rng 0 ''ROOM01''
      \<lparr>opt_difficulty = None, opt_initialCards = Some 0\<rparr> lobby1)) = Some (6, 6)"
  by code_simp

section \<open>Answers and scores\<close>

lemma getGameState_store [simp]: "getGameState rid (store rid st m) = Some st"
  by (simp add: getGameState_def store_def update_conv')

lemma players_in_store [simp]: "players_in rid (store rid' st m) = players_in rid m"
  by (simp add: players_in_def store_def)

lemma submit_rejected:
  assumes "getGameState rid m = Some st" and "\<not> roundInProgress st \<or> problemSolved st"
  shows "playerSubmitAnswer now rid pn a m =
           (Some (Rejected (st\<lparr>playersConnected := players_in rid m\<rparr>)),
            store rid (st\<lparr>playersConnected := players_in rid m\<rparr>) m)"
  using assms by (auto simp: playerSubmitAnswer_def getGameState_def Let_def)

lemma submit_taken:
  assumes "getGameState rid m = Some st" and "roundInProgress st" and "\<not> problemSolved st"
  shows "\<exists>st'. playerSubmitAnswer now rid pn a m =
                 (Some (Taken st' (a = correctAnswer st)), store rid st' m)
           \<and> submittedAnswers st' = (submittedAnswers st)(pn := Some a)
           \<and> player1Answered st' = (pn = 1 \<or> player1Answered st)
           \<and> player2Answered st' = (pn \<noteq> 1 \<or> player2Answered st)
           \<and> player1Score st' = player1Score st + (if a = correctAnswer st \<and> pn = 1 then 1 else 0)
           \<and> player2Score st' = player2Score st + (if a = correctAnswer st \<and> pn \<noteq> 1 then 1 else 0)
           \<and> problemSolved st' =
                (a = correctAnswer st \<or> (if pn = 1 then player2Answered st else player1Answered st))
           \<and> solvedBy st' = (if a = correctAnswer st then Some pn
                              else if (if pn = 1 then player2Answered st else player1Answered st)
                                   then None else solvedBy st)
           \<and> history st' =
                (if problemSolved st'
                 then history st @ [\<lparr>h_a = map_option fst (currentProblem st),
                                      h_b = map_option snd (currentProblem st),
                                      h_correctAnswer = correctAnswer st,
                                      h_solvedBy = solvedBy st', h_timestamp = now\<rparr>]
                 else history st)
           \<and> roundInProgress st' \<and> correctAnswer st' = correctAnswer st
           \<and> currentProblem st' = currentProblem st"
  using assms
  by (simp add: playerSubmitAnswer_def getGameState_def Let_def history_push_def)

lemma wrong_step:
  assumes cur: "getGameState rid m = Some st'" and inv: "wrong_inv st seen st'"
    and wrong: "a \<noteq> correctAnswer st" and pn: "pn = 1 \<or> pn = 2"
  shows "\<exists>st''. getGameState rid (snd (playerSubmitAnswer now rid pn a m)) = Some st''
           \<and> wrong_inv st (insert pn seen) st''"
proof (cases "problemSolved st'")
  case True
  hence "playerSubmitAnswer now rid pn a m =
           (Some (Rejected (st'\<lparr>playersConnected := players_in rid m\<rparr>)),
            store rid (st'\<lparr>playersConnected := players_in rid m\<rparr>) m)"
    using submit_rejected[OF cur] by simp
  thus ?thesis using inv True by (simp add: wrong_inv_def)
next
  case False
  have ip: "roundInProgress st'" using inv by (simp add: wrong_inv_def)
  obtain st'' where res: "playerSubmitAnswer now rid pn a m =
                 (Some (Taken st'' (a = correctAnswer st')), store rid st'' m)"
    and a1: "player1Answered st'' = (pn = 1 \<or> player1Answered st')"
    and a2: "player2Answered st'' = (pn \<noteq> 1 \<or> player2Answered st')"
    and s1: "player1Score st'' = player1Score st' + (if a = correctAnswer st' \<and> pn = 1 then 1 else 0)"
    and s2: "player2Score st'' = player2Score st' + (if a = correctAnswer st' \<and> pn \<noteq> 1 then 1 else 0)"
    and ps: "problemSolved st'' =
                (a = correctAnswer st' \<or> (if pn = 1 then player2Answered st' else player1Answered st'))"
    and sb: "solvedBy st'' = (if a = correctAnswer st' then Some pn
                              else if (if pn = 1 then player2Answered st' else player1Answered st')
                                   then None else solvedBy st')"
    and hi: "history st'' =
                (if problemSolved st''
                 then history st' @ [\<lparr>h_a = map_option fst (currentProblem st'),
                                      h_b = map_option snd (currentProblem st'),
                                      h_correctAnswer = correctAnswer st',
                                      h_solvedBy = solvedBy st'', h_timestamp = now\<rparr>]
                 else history st')"
    and rp: "roundInProgress st''" and ca: "correctAnswer st'' = correctAnswer st'"
    using submit_taken[OF cur ip False, of now pn a] by blast
  have c: "correctAnswer st' = correctAnswer st" using inv by (simp add: wrong_inv_def)
  have "wrong_inv st (insert pn seen) st''"
    using inv False wrong pn c a1 a2 s1 s2 ps sb hi rp ca
    by (auto simp: wrong_inv_def)
  thus ?thesis using res by simp
qed

lemma wrong_all:
  assumes "getGameState rid m = Some st'" and "wrong_inv st seen st'"
    and "\<forall>(now, pn, a) \<in> set subs. a \<noteq> correctAnswer st \<and> (pn = 1 \<or> pn = 2)"
  shows "\<exists>st''. getGameState rid (submit_all rid subs m) = Some st''
           \<and> wrong_inv st (seen \<union> (\<lambda>(now, pn, a). pn) ` set subs) st''"
  using assms
proof (induction subs arbitrary: m st' seen)
  case Nil
  thus ?case by simp
next
  case (Cons x xs)
  obtain now pn a where x: "x = (now, pn, a)" by (cases x)
  have w: "a \<noteq> correctAnswer st" and p: "pn = 1 \<or> pn = 2" using Cons.prems(3) x by auto
  obtain st'' where g: "getGameState rid (snd (playerSubmitAnswer now rid pn a m)) = Some st''"
    and i: "wrong_inv st (insert pn seen) st''"
    using wrong_step[OF Cons.prems(1,2) w p] by blast
  have r: "\<forall>(now, pn, a) \<in> set xs. a \<noteq> correctAnswer st \<and> (pn = 1 \<or> pn = 2)"
    using Cons.prems(3) by simp
  show ?case using Cons.IH[OF g i r] x by simp
qed

lemma wrong_inv_init: "roundInProgress st \<Longrightarrow> \<not> problemSolved st \<Longrightarrow> wrong_inv st {} st"
  by (simp add: wrong_inv_def)

text \<open>
  C1. In a room whose round is in progress and not solved, the correct answer of player
  1 or 2 is taken, adds exactly 1 to that player's score and nothing to the other's,
  marks the round solved by that player and appends one history entry for the problem.
  And after any list of submissions to that room in which every answer is wrong and
  both players occur, the round is solved with no solver, both scores are what they
  were, and exactly one history entry, with no solver, has been appended.
\<close>

theorem playerSubmitAnswer_scoring:
  assumes cur: "getGameState rid m = Some st"
    and ip: "roundInProgress st" and un: "\<not> problemSolved st"
  shows "(pn = 1 \<or> pn = 2 \<longrightarrow>
           (\<exists>st'. playerSubmitAnswer now rid pn (correctAnswer st) m
                    = (Some (Taken st' True), store rid st' m)
               \<and> getGameState rid (store rid st' m) = Some st'
               \<and> player1Score st' = player1Score st + (if pn = 1 then 1 else 0)
               \<and> player2Score st' = player2Score st + (if pn = 2 then 1 else 0)
               \<and> problemSolved st' \<and> solvedBy st' = Some pn
               \<and> history st' = history st @
                    [\<lparr>h_a = map_option fst (currentProblem st),
                      h_b = map_option snd (currentProblem st),
                      h_correctAnswer = correctAnswer st,
                      h_solvedBy = Some pn, h_timestamp = now\<rparr>]))
       \<and> ((\<forall>(t, p, a) \<in> set subs. a \<noteq> correctAnswer st \<and> (p = 1 \<or> p = 2))
            \<and> {1, 2} \<subseteq> (\<lambda>(t, p, a). p) ` set subs \<longrightarrow>
           (\<exists>st'. getGameState rid (submit_all rid subs m) = Some st'
               \<and> problemSolved st' \<and> solvedBy st' = None
               \<and> player1Score st' = player1Score st \<and> player2Score st' = player2Score st
               \<and> length (history st') = Suc (length (history st))
               \<and> butlast (history st') = history st
               \<and> h_solvedBy (last (history st')) = None))"
proof (intro conjI impI)
  assume pn: "pn = 1 \<or> pn = 2"
  show "\<exists>st'. playerSubmitAnswer now rid pn (correctAnswer st) m
                    = (Some (Taken st' True), store rid st' m)
               \<and> getGameState rid (store rid st' m) = Some st'
               \<and> player1Score st' = player1Score st + (if pn = 1 then 1 else 0)
               \<and> player2Score st' = player2Score st + (if pn = 2 then 1 else 0)
               \<and> problemSolved st' \<and> solvedBy st' = Some pn
               \<and> history st' = history st @
                    [\<lparr>h_a = map_option fst (currentProblem st),
                      h_b = map_option snd (currentProblem st),
                      h_correctAnswer = correctAnswer st,
                      h_solvedBy = Some pn, h_timestamp = now\<rparr>]"
    using submit_taken[OF cur ip un, of now pn "correctAnswer st"] pn by auto
next
  assume a: "(\<forall>(t, p, a) \<in> set subs. a \<noteq> correctAnswer st \<and> (p = 1 \<or> p = 2))
            \<and> {1, 2} \<subseteq> (\<lambda>(t, p, a). p) ` set subs"
  obtain st' where g: "getGameState rid (submit_all rid subs m) = Some st'"
    and i: "wrong_inv st ({} \<union> (\<lambda>(now, pn, a). pn) ` set subs) st'"
    using wrong_all[OF cur wrong_inv_init[OF ip un], of subs] a by blast
  have both: "1 \<in> (\<lambda>(now, pn, a). pn) ` set subs" "2 \<in> (\<lambda>(now, pn, a). pn) ` set subs"
    using a by auto
  have "problemSolved st'" using i both unfolding wrong_inv_def by auto
  thus "\<exists>st'. getGameState rid (submit_all rid subs m) = Some st'
               \<and> problemSolved st' \<and> solvedBy st' = None
               \<and> player1Score st' = player1Score st \<and> player2Score st' = player2Score st
               \<and> length (history st') = Suc (length (history st))
               \<and> butlast (history st') = history st
               \<and> h_solvedBy (last (history st')) = None"
    using g i unfolding wrong_inv_def by auto
qed

lemma playing_state:
  "map_option (\<lambda>st. (roundInProgress st, problemSolved st, correctAnswer st,
        player1Score st, player2Score st)) (getGameState ''ROOM01'' playing)
   = Some (True, False, 12, 0, 0)"
  by code_simp

theorem playerSubmitAnswer_scoring_witness:
  "map_option roundInProgress (getGameState ''ROOM01'' playing) = Some True
   \<and> map_option problemSolved (getGameState ''ROOM01'' playing) = Some False
   \<and> map_option (\<lambda>s. (player1Score s, player2Score s, solvedBy s))
        (getGameState ''ROOM01'' (snd (playerSubmitAnswer 5 ''ROOM01'' 2 12 playing)))
      = Some (0, 1, Some 2)
   \<and> map_option (\<lambda>s. (player1Score s, player2Score s, problemSolved s, solvedBy s))
        (getGameState ''ROOM01'' (submit_all ''ROOM01'' [(5, 1, 11), (6, 2, 7)] playing))
      = Some (0, 0, True, None)"
proof -
  obtain st where cur: "getGameState ''ROOM01'' playing = Some st"
    and ip: "roundInProgress st" and un: "\<not> problemSolved st"
    and ca: "correctAnswer st = 12" and s1: "player1Score st = 0" and s2: "player2Score st = 0"
    using playing_state by auto
  note sc = playerSubmitAnswer_scoring[OF cur ip un, of 2 5 "[(5, 1, 11), (6, 2, 7)]"]
  have a: "\<exists>st'. playerSubmitAnswer 5 ''ROOM01'' 2 12 playing
                    = (Some (Taken st' True), store ''ROOM01'' st' playing)
               \<and> getGameState ''ROOM01'' (store ''ROOM01'' st' playing) = Some st'
               \<and> player1Score st' = 0 \<and> player2Score st' = 1 \<and> solvedBy st' = Some 2"
    using sc ca s1 s2 by auto
  have b: "\<exists>st'. getGameState ''ROOM01'' (submit_all ''ROOM01'' [(5, 1, 11), (6, 2, 7)] playing) = Some st'
               \<and> problemSolved st' \<and> solvedBy st' = None
               \<and> player1Score st' = 0 \<and> player2Score st' = 0"
    using sc ca s1 s2 by auto
  show ?thesis using a b cur ip un by auto
qed

text \<open>
  C10. In a round in progress and not solved, a player who has already answered, and
  answered wrong, submits again: the submission is taken, it replaces the player's
  recorded answer, and when it is the correct answer the player gets the point and is
  the solver. And for any room with a game, any player and any answer, the call returns
  the bare state (the submission is rejected) exactly when no round is in progress or
  the round is solved.
\<close>

theorem playerSubmitAnswer_repeated:
  assumes cur: "getGameState rid m = Some st"
    and ip: "roundInProgress st" and un: "\<not> problemSolved st"
    and pn: "pn = 1 \<or> pn = 2"
    and answered: "if pn = 1 then player1Answered st else player2Answered st"
    and prev: "submittedAnswers st pn = Some w" and wrong: "w \<noteq> correctAnswer st"
  shows "(\<exists>st'. playerSubmitAnswer now rid pn a m
                  = (Some (Taken st' (a = correctAnswer st)), store rid st' m)
            \<and> getGameState rid (store rid st' m) = Some st'
            \<and> submittedAnswers st' pn = Some a
            \<and> (a = correctAnswer st \<longrightarrow>
                  player1Score st' = player1Score st + (if pn = 1 then 1 else 0)
                \<and> player2Score st' = player2Score st + (if pn = 2 then 1 else 0)
                \<and> problemSolved st' \<and> solvedBy st' = Some pn))
       \<and> (getGameState rid m' = Some s \<longrightarrow>
            ((\<exists>r. fst (playerSubmitAnswer t rid q b m') = Some (Rejected r))
               \<longleftrightarrow> (\<not> roundInProgress s \<or> problemSolved s)))"
proof (intro conjI impI)
  show "\<exists>st'. playerSubmitAnswer now rid pn a m
                  = (Some (Taken st' (a = correctAnswer st)), store rid st' m)
            \<and> getGameState rid (store rid st' m) = Some st'
            \<and> submittedAnswers st' pn = Some a
            \<and> (a = correctAnswer st \<longrightarrow>
                  player1Score st' = player1Score st + (if pn = 1 then 1 else 0)
                \<and> player2Score st' = player2Score st + (if pn = 2 then 1 else 0)
                \<and> problemSolved st' \<and> solvedBy st' = Some pn)"
    using submit_taken[OF cur ip un, of now pn a] pn by auto
next
  assume s: "getGameState rid m' = Some s"
  show "(\<exists>r. fst (playerSubmitAnswer t rid q b m') = Some (Rejected r))
               \<longleftrightarrow> (\<not> roundInProgress s \<or> problemSolved s)"
  proof (cases "\<not> roundInProgress s \<or> problemSolved s")
    case True
    thus ?thesis using submit_rejected[OF s True, of t q b] by simp
  next
    case False
    hence "roundInProgress s" "\<not> problemSolved s" by simp_all
    from submit_taken[OF s this, of t q b] obtain st' where
      "playerSubmitAnswer t rid q b m' = (Some (Taken st' (b = correctAnswer s)), store rid st' m')"
      by blast
    thus ?thesis using False by simp
  qed
qed

lemma answered_wrong_state:
  "map_option (\<lambda>st. (roundInProgress st, problemSolved st, correctAnswer st,
        player1Score st, player2Score st, player1Answered st, submittedAnswers st 1))
     (getGameState ''ROOM01'' answered_wrong)
   = Some (True, False, 12, 0, 0, True, Some 11)"
  by code_simp

theorem playerSubmitAnswer_repeated_witness:
  "map_option (\<lambda>s. (roundInProgress s, problemSolved s, player1Answered s, submittedAnswers s 1))
       (getGameState ''ROOM01'' answered_wrong) = Some (True, False, True, Some 11)
   \<and> map_option (\<lambda>s. (submittedAnswers s 1, player1Score s, player2Score s, solvedBy s))
        (getGameState ''ROOM01'' (snd (playerSubmitAnswer 6 ''ROOM01'' 1 12 answered_wrong)))
      = Some (Some 12, 1, 0, Some 1)"
proof -
  obtain st where cur: "getGameState ''ROOM01'' answered_wrong = Some st"
    and ip: "roundInProgress st" and un: "\<not> problemSolved st"
    and ca: "correctAnswer st = 12" and s1: "player1Score st = 0" and s2: "player2Score st = 0"
    and an: "player1Answered st" and sa: "submittedAnswers st 1 = Some 11"
    using answered_wrong_state by auto
  have pn: "(1::nat) = 1 \<or> (1::nat) = 2" by simp
  have an': "if (1::nat) = 1 then player1Answered st else player2Answered st" using an by simp
  have w: "(11::int) \<noteq> correctAnswer st" using ca by simp
  have "\<exists>st'. playerSubmitAnswer 6 ''ROOM01'' 1 12 answered_wrong
                  = (Some (Taken st' True), store ''ROOM01'' st' answered_wrong)
            \<and> getGameState ''ROOM01'' (store ''ROOM01'' st' answered_wrong) = Some st'
            \<and> submittedAnswers st' 1 = Some 12
            \<and> player1Score st' = 1 \<and> player2Score st' = 0 \<and> solvedBy st' = Some 1"
    using playerSubmitAnswer_repeated[OF cur ip un pn an' sa w, of 6 12, THEN conjunct1]
      ca s1 s2 by auto
  thus ?thesis using cur ip un an sa by auto
qed

section \<open>The registry and the idle-room sweep\<close>

lemma set_update_subset: "set (AList.update k v al) \<subseteq> insert (k, v) (set al)"
  by (induct al) auto

lemma set_delete_subset: "set (AList.delete k al) \<subseteq> set al"
  by (auto simp: AList.delete_eq)

lemma update_not_Nil: "AList.update k v al \<noteq> []"
  by (cases al) auto

lemma rooms_inv_update:
  assumes "rooms_inv m" and "lastEmptyAt r = None" and "players r \<noteq> []"
    and "rooms m' = AList.update rid r (rooms m)"
  shows "rooms_inv m'"
  using assms set_update_subset[of rid r "rooms m"] by (auto simp: rooms_inv_def)

lemma rooms_inv_delete:
  assumes "rooms_inv m" and "rooms m' = AList.delete rid (rooms m)"
  shows "rooms_inv m'"
  using assms set_delete_subset[of rid "rooms m"] by (auto simp: rooms_inv_def)

lemma rooms_inv_same: "rooms_inv m \<Longrightarrow> rooms m' = rooms m \<Longrightarrow> rooms_inv m'"
  by (simp add: rooms_inv_def)

lemma rooms_inv_lookup:
  assumes "rooms_inv m" and "map_of (rooms m) rid = Some r"
  shows "lastEmptyAt r = None \<and> players r \<noteq> []"
  using assms map_of_SomeD[of "rooms m" rid r] by (fastforce simp: rooms_inv_def)

lemma find_room_of_mem: "find_room_of sid rs = Some (rid, r) \<Longrightarrow> (rid, r) \<in> set rs"
  by (induct rs) (auto split: if_splits)

lemma createRoom_inv: "rooms_inv m \<Longrightarrow> rooms_inv (snd (createRoom rid pid rname now sid m))"
  by (rule rooms_inv_update[where rid = rid and
        r = "\<lparr>roomId = rid, name = rname,
              players = AList.update sid \<lparr>playerId = pid, playerNumber = 1, socketId = sid,
                                          status = ''lobby''\<rparr> [],
              createdAt = now, lastActivity = now, room_difficulty = None,
              room_initialCards = None, room_options = None, transitioning = False,
              lastEmptyAt = None\<rparr>"])
     (simp_all add: createRoom_def)

lemma joinRoom_inv:
  assumes "rooms_inv m"
  shows "rooms_inv (snd (joinRoom pid now rid sid m))"
proof (cases "map_of (rooms m) rid")
  case None
  thus ?thesis using assms by (simp add: joinRoom_def)
next
  case (Some r)
  note r = rooms_inv_lookup[OF assms Some]
  show ?thesis
  proof (cases "map_size (players r) \<ge> 2")
    case True
    thus ?thesis using assms Some by (simp add: joinRoom_def)
  next
    case False
    show ?thesis
      by (rule rooms_inv_update[OF assms, where rid = rid and
            r = "r\<lparr>players := AList.update sid \<lparr>playerId = pid, playerNumber = 2,
                     socketId = sid, status = ''lobby''\<rparr> (players r), lastActivity := now\<rparr>"])
         (use Some False r in \<open>simp_all add: joinRoom_def update_not_Nil\<close>)
  qed
qed

lemma leaveRoomBySocket_inv:
  assumes "rooms_inv m"
  shows "rooms_inv (snd (leaveRoomBySocket sid m))"
proof (cases "find_room_of sid (rooms m)")
  case None
  thus ?thesis using assms by (simp add: leaveRoomBySocket_def)
next
  case (Some e)
  obtain rid r where e: "e = (rid, r)" by (cases e)
  have "(rid, r) \<in> set (rooms m)" using find_room_of_mem Some e by simp
  hence r: "lastEmptyAt r = None" using assms by (auto simp: rooms_inv_def)
  show ?thesis
  proof (cases "map_size (AList.delete sid (players r)) = 0")
    case True
    show ?thesis
      by (rule rooms_inv_delete[OF assms, where rid = rid])
         (use Some e True in \<open>simp add: leaveRoomBySocket_def Let_def\<close>)
  next
    case False
    show ?thesis
      by (rule rooms_inv_update[OF assms, where rid = rid and
            r = "r\<lparr>players := AList.delete sid (players r), lastEmptyAt := None\<rparr>"])
         (use Some e False r in \<open>auto simp: leaveRoomBySocket_def Let_def map_size_def truthy_num_def\<close>)
  qed
qed

lemma setPlayerStatus_inv:
  assumes "rooms_inv m"
  shows "rooms_inv (snd (setPlayerStatus rid sid s m))"
proof (cases "map_of (rooms m) rid")
  case None
  thus ?thesis using assms by (simp add: setPlayerStatus_def)
next
  case (Some r)
  note r = rooms_inv_lookup[OF assms Some]
  show ?thesis
  proof (cases "map_of (players r) sid")
    case None
    thus ?thesis using assms Some by (simp add: setPlayerStatus_def)
  next
    case (Some p)
    show ?thesis
      by (rule rooms_inv_update[OF assms, where rid = rid and
            r = "r\<lparr>players := AList.update sid (p\<lparr>status := s\<rparr>) (players r)\<rparr>"])
         (use Some \<open>map_of (rooms m) rid = Some r\<close> r in
            \<open>simp_all add: setPlayerStatus_def update_not_Nil\<close>)
  qed
qed

lemma initGameState_no_room:
  "map_of (rooms m) rid = None \<Longrightarrow> fst (snd (initGameState rnd k rid opts m)) = m"
  by (simp add: initGameState_def)

lemma initGameState_rooms:
  "map_of (rooms m) rid = Some r \<Longrightarrow>
     \<exists>d n. rooms (fst (snd (initGameState rnd k rid opts m))) =
       AList.update rid (r\<lparr>room_difficulty := Some d, room_initialCards := Some n,
                            room_options := Some (Some d, Some n),
                            players := set_all_status ''in-game'' (players r)\<rparr>) (rooms m)"
  by (simp add: initGameState_def Let_def split: prod.splits) (intro exI, rule refl)

lemma initGameState_inv:
  assumes "rooms_inv m"
  shows "rooms_inv (fst (snd (initGameState rnd k rid opts m)))"
proof (cases "map_of (rooms m) rid")
  case None
  thus ?thesis using assms initGameState_no_room by simp
next
  case (Some r)
  note r = rooms_inv_lookup[OF assms Some]
  obtain d n where u: "rooms (fst (snd (initGameState rnd k rid opts m))) =
       AList.update rid (r\<lparr>room_difficulty := Some d, room_initialCards := Some n,
                            room_options := Some (Some d, Some n),
                            players := set_all_status ''in-game'' (players r)\<rparr>) (rooms m)"
    using initGameState_rooms[OF Some] by blast
  show ?thesis
    by (rule rooms_inv_update[OF assms _ _ u]) (use r in \<open>simp_all add: set_all_status_def\<close>)
qed

lemma playerSelectCard_rooms:
  "playerSelectCard rnd k rid pn cid m = Some res \<Longrightarrow> rooms (fst (snd res)) = rooms m"
  by (auto simp: playerSelectCard_def Let_def store_def
           split: option.splits if_splits prod.splits)

lemma playerSubmitAnswer_rooms: "rooms (snd (playerSubmitAnswer now rid pn a m)) = rooms m"
  by (simp add: playerSubmitAnswer_def Let_def store_def split: option.splits)

lemma nextRound_rooms: "rooms (snd (nextRound rid m)) = rooms m"
  by (simp add: nextRound_def Let_def store_def split: option.splits)

lemma resetGameState_inv:
  assumes "rooms_inv m"
  shows "rooms_inv (fst (snd (resetGameState rnd k rid m)))"
proof -
  let ?m0 = "m\<lparr>gameStates := AList.delete rid (gameStates m)\<rparr>"
  let ?o = "\<lparr>opt_difficulty = None, opt_initialCards = None\<rparr>"
  have i0: "rooms_inv ?m0" using assms by (simp add: rooms_inv_def)
  have "rooms (fst (snd (resetGameState rnd k rid m)))
          = rooms (fst (snd (initGameState rnd k rid ?o ?m0)))"
    by (simp add: resetGameState_def Let_def store_def split: prod.splits option.splits)
  thus ?thesis using initGameState_inv[OF i0, of rnd k rid ?o] by (simp add: rooms_inv_def)
qed

lemma gc_fold_none:
  "\<forall>e \<in> set rs. lastEmptyAt (snd e) = None \<Longrightarrow> fold (gc_room now) rs acc = acc"
  by (induct rs arbitrary: acc) (auto simp: gc_room_def truthy_num_def split: prod.splits)

lemma garbageCollectRooms_none: "rooms_inv m \<Longrightarrow> garbageCollectRooms now m = ([], m)"
  unfolding garbageCollectRooms_def by (rule gc_fold_none) (simp add: rooms_inv_def)

lemma set_transitioning_inv:
  assumes "rooms_inv m"
  shows "rooms_inv (set_transitioning rid b m)"
proof (cases "map_of (rooms m) rid")
  case None
  thus ?thesis using assms by (simp add: set_transitioning_def)
next
  case (Some r)
  note r = rooms_inv_lookup[OF assms Some]
  show ?thesis
    by (rule rooms_inv_update[OF assms, where rid = rid and r = "r\<lparr>transitioning := b\<rparr>"])
       (use Some r in \<open>simp_all add: set_transitioning_def\<close>)
qed

lemma clear_lastEmptyAt_inv:
  assumes "rooms_inv m"
  shows "rooms_inv (clear_lastEmptyAt rid m)"
proof (cases "map_of (rooms m) rid")
  case None
  thus ?thesis using assms by (simp add: clear_lastEmptyAt_def)
next
  case (Some r)
  note r = rooms_inv_lookup[OF assms Some]
  thus ?thesis using assms Some by (simp add: clear_lastEmptyAt_def truthy_num_def)
qed

lemma setRoomOptions_inv:
  assumes "rooms_inv m"
  shows "rooms_inv (setRoomOptions rid d n m)"
proof (cases "map_of (rooms m) rid")
  case None
  thus ?thesis using assms by (simp add: setRoomOptions_def)
next
  case (Some r)
  note r = rooms_inv_lookup[OF assms Some]
  let ?d = "case truthy_str d of Some v \<Rightarrow> Some v | None \<Rightarrow> room_difficulty r"
  let ?n = "case truthy_num n of Some v \<Rightarrow> Some v | None \<Rightarrow> room_initialCards r"
  show ?thesis
    by (rule rooms_inv_update[OF assms, where rid = rid and
          r = "r\<lparr>room_difficulty := ?d, room_initialCards := ?n, room_options := Some (?d, ?n)\<rparr>"])
       (use Some r in \<open>simp_all add: setRoomOptions_def Let_def\<close>)
qed

lemma set_client_flags_rooms: "rooms (set_client_flags rid adv deal m) = rooms m"
  by (simp add: set_client_flags_def store_def split: option.splits)

lemma apply_op_inv:
  assumes "rooms_inv m" and "apply_op x m = Some m'"
  shows "rooms_inv m'"
proof (cases x)
  case (SelectCard rnd k rid pn cid)
  then obtain res where "playerSelectCard rnd k rid pn cid m = Some res" "m' = fst (snd res)"
    using assms(2) by auto
  thus ?thesis using playerSelectCard_rooms rooms_inv_same[OF assms(1)] by blast
next
  case (CollectGarbage now)
  thus ?thesis using assms garbageCollectRooms_none[OF assms(1), of now] by simp
qed (use assms createRoom_inv joinRoom_inv leaveRoomBySocket_inv setPlayerStatus_inv
       initGameState_inv resetGameState_inv set_transitioning_inv clear_lastEmptyAt_inv
       setRoomOptions_inv rooms_inv_same[OF assms(1) playerSubmitAnswer_rooms]
       rooms_inv_same[OF assms(1) nextRound_rooms]
       rooms_inv_same[OF assms(1) set_client_flags_rooms] in auto)

lemma run_inv: "rooms_inv m \<Longrightarrow> run ops m = Some m' \<Longrightarrow> rooms_inv m'"
proof (induction ops arbitrary: m)
  case Nil
  thus ?case by simp
next
  case (Cons x xs)
  thus ?case using apply_op_inv by (auto split: option.splits)
qed

lemma new_manager_inv: "rooms_inv new_manager"
  by (simp add: rooms_inv_def new_manager_def)

text \<open>
  C9. In every state of the room manager reached from the empty one by any list of
  operations, \<open>garbageCollectRooms\<close> at any time returns the empty list and leaves the
  manager as it is, and neither half of its trigger condition holds of any room: no
  room has zero members (\<open>leaveRoomBySocket\<close> deletes the room with its last member) and
  no room has a \<^verbatim>\<open>lastEmptyAt\<close> timestamp (nothing ever sets one).
\<close>

theorem garbageCollectRooms_never_removes:
  assumes "run ops new_manager = Some m"
  shows "garbageCollectRooms now m = ([], m)
       \<and> (\<forall>e \<in> set (rooms m). \<not> (map_size (players (snd e)) = 0) \<and> lastEmptyAt (snd e) = None)"
proof -
  have "rooms_inv m" using run_inv[OF new_manager_inv assms] .
  thus ?thesis using garbageCollectRooms_none[of m now] by (auto simp: rooms_inv_def map_size_def)
qed

lemma after_leave_run:
  "run [CreateRoom ''ROOM01'' ''player_a'' ''happy-fox'' 0 ''s1'',
        JoinRoom ''player_b'' 1 ''ROOM01'' ''s2'', LeaveRoom ''s2''] new_manager
     = Some after_leave"
  by (simp add: after_leave_def lobby2_def lobby1_def)

theorem garbageCollectRooms_never_removes_witness:
  "run [CreateRoom ''ROOM01'' ''player_a'' ''happy-fox'' 0 ''s1'',
        JoinRoom ''player_b'' 1 ''ROOM01'' ''s2'', LeaveRoom ''s2''] new_manager
     = Some after_leave
   \<and> garbageCollectRooms 999999999 after_leave = ([], after_leave)"
  using garbageCollectRooms_never_removes[OF after_leave_run, of 999999999] after_leave_run
  by blast

section \<open>Selecting a card while the room is transitioning\<close>

text \<open>
  C7, as the code has it. When the room's \<^verbatim>\<open>transitioning\<close> flag is set,
  \<open>playerSelectCard\<close> returns at once, without a random draw: the returned and stored
  state is the state before the call with \<^verbatim>\<open>playersConnected\<close> set to the room's
  current number of members, and nothing else changed. No selection is recorded, no
  problem is generated, and the rooms are as they were.
\<close>

theorem playerSelectCard_transitioning:
  assumes "getGameState rid m = Some st" and "is_transitioning rid m"
  shows "\<exists>st'. playerSelectCard rnd k rid pn cid m = Some (Some st', store rid st' m, k)
          \<and> st' = st\<lparr>playersConnected := players_in rid m\<rparr>
          \<and> player1SelectedCard st' = player1SelectedCard st
          \<and> player2SelectedCard st' = player2SelectedCard st
          \<and> currentProblem st' = currentProblem st
          \<and> answerOptions st' = answerOptions st
          \<and> correctAnswer st' = correctAnswer st
          \<and> roundInProgress st' = roundInProgress st
          \<and> revealEquation st' = revealEquation st
          \<and> rooms (store rid st' m) = rooms m
          \<and> getGameState rid (store rid st' m) = Some st'"
  using assms by (simp add: playerSelectCard_def getGameState_def Let_def store_def update_conv')

lemma transition_left_facts:
  "is_transitioning ''ROOM01'' transition_left"
  "getGameState ''ROOM01'' transition_left \<noteq> None"
  "players_in ''ROOM01'' transition_left = 1"
  by code_simp+

theorem playerSelectCard_transitioning_witness:
  "is_transitioning ''ROOM01'' transition_left
   \<and> getGameState ''ROOM01'' transition_left \<noteq> None
   \<and> returned_state (playerSelectCard demo_rng 0 ''ROOM01'' 2 ''hearts-4-2'' transition_left)
       = map_option (\<lambda>s. s\<lparr>playersConnected := 1\<rparr>) (getGameState ''ROOM01'' transition_left)"
proof -
  obtain st where cur: "getGameState ''ROOM01'' transition_left = Some st"
    using transition_left_facts(2) by blast
  obtain st' where
    "playerSelectCard demo_rng 0 ''ROOM01'' 2 ''hearts-4-2'' transition_left
       = Some (Some st', store ''ROOM01'' st' transition_left, 0)"
    and "st' = st\<lparr>playersConnected := players_in ''ROOM01'' transition_left\<rparr>"
    using playerSelectCard_transitioning[OF cur transition_left_facts(1),
        of demo_rng 0 2 "''hearts-4-2''"] by blast
  thus ?thesis
    using cur transition_left_facts by (simp add: returned_state_def)
qed

text \<open>
  C7 as stated fails: a field of the game state does change. In \<open>transition_left\<close> the
  room is transitioning and the state says 2 players are connected; the call returns
  the state with \<^verbatim>\<open>playersConnected\<close> = 1.
\<close>

theorem playerSelectCard_refreshes_playersConnected:
  "is_transitioning ''ROOM01'' transition_left
   \<and> connected ''ROOM01'' transition_left = Some 2
   \<and> map_option playersConnected (returned_state
        (playerSelectCard demo_rng 0 ''ROOM01'' 1 ''hearts-3-1'' transition_left)) = Some 1"
  by code_simp

section \<open>Advancing the round once\<close>

lemma nextRound_idem: "nextRound rid (snd (nextRound rid m)) = nextRound rid m"
  by (cases "map_of (gameStates m) rid")
     (simp_all add: nextRound_def Let_def store_def update_conv' players_in_def
        remove_selected_def)

lemma nextRound_set_transitioning:
  "nextRound rid (set_transitioning r b m)
     = (fst (nextRound rid m), set_transitioning r b (snd (nextRound rid m)))"
  by (cases "map_of (gameStates m) rid"; cases "map_of (rooms m) r")
     (auto simp: nextRound_def Let_def store_def set_transitioning_def players_in_def
        update_conv' map_size_def)

lemma getRoom_set_transitioning:
  "getRoom rid (set_transitioning r b m) = None \<longleftrightarrow> getRoom rid m = None"
  by (cases "map_of (rooms m) r") (auto simp: getRoom_def set_transitioning_def update_conv')

lemma getRoom_nextRound: "getRoom rid (snd (nextRound r m)) = getRoom rid m"
  by (simp add: getRoom_def nextRound_def Let_def store_def split: option.splits)

lemma set_transitioning_idem:
  "set_transitioning r b (set_transitioning r b m) = set_transitioning r b m"
  by (cases "map_of (rooms m) r") (simp_all add: set_transitioning_def update_conv')

lemma nextRound_Some:
  "getGameState rid m = Some st \<Longrightarrow>
     \<exists>st1. fst (nextRound rid m) = Some st1
       \<and> getGameState rid (snd (nextRound rid m)) = Some st1
       \<and> player1Hand st1 = remove_selected (player1SelectedCard st) (player1Hand st)
       \<and> player2Hand st1 = remove_selected (player2SelectedCard st) (player2Hand st)
       \<and> player1SelectedCard st1 = None \<and> player2SelectedCard st1 = None
       \<and> gameOver st1 = (player1Hand st1 = [] \<or> player2Hand st1 = [])
       \<and> winner st1 = (if gameOver st1
                        then (if player1Score st > player2Score st then Some ''player1''
                              else if player2Score st > player1Score st then Some ''player2''
                              else None)
                        else winner st)
       \<and> player1Score st1 = player1Score st \<and> player2Score st1 = player2Score st
       \<and> advanceClients st1 \<and> dealComplete st1"
  by (simp add: nextRound_def getGameState_def Let_def store_def update_conv')

lemma set_client_flags_same:
  assumes "getGameState rid m = Some s" and "advanceClients s = a" and "dealComplete s = d"
  shows "set_client_flags rid a d m = m"
proof -
  have "s\<lparr>advanceClients := a, dealComplete := d\<rparr> = s" using assms by simp
  moreover have "AList.update rid s (gameStates m) = gameStates m"
    using assms(1) by (simp add: getGameState_def update_triv)
  ultimately show ?thesis using assms(1)
    by (simp add: set_client_flags_def store_def getGameState_def)
qed

lemma getGameState_set_transitioning:
  "getGameState rid (set_transitioning r b m) = getGameState rid m"
  by (simp add: getGameState_def set_transitioning_def split: option.splits)

lemma set_client_flags_nextRound:
  assumes "getGameState rid m = Some st" and "fst (nextRound rid m) = Some st1"
  shows "set_client_flags rid True (dealComplete st1) (set_transitioning r b (snd (nextRound rid m)))
           = set_transitioning r b (snd (nextRound rid m))"
    and "set_client_flags rid True (dealComplete st1) (snd (nextRound rid m))
           = snd (nextRound rid m)"
proof -
  have g: "getGameState rid (snd (nextRound rid m)) = Some st1" and a: "advanceClients st1 = True"
    using nextRound_Some[OF assms(1)] assms(2) by auto
  show "set_client_flags rid True (dealComplete st1) (set_transitioning r b (snd (nextRound rid m)))
           = set_transitioning r b (snd (nextRound rid m))"
    by (rule set_client_flags_same[where s = st1])
       (simp_all add: getGameState_set_transitioning g a)
  show "set_client_flags rid True (dealComplete st1) (snd (nextRound rid m)) = snd (nextRound rid m)"
    by (rule set_client_flags_same[where s = st1]) (simp_all add: g a)
qed

lemma manual_is_timer:
  assumes room: "getRoom rid (mgr srv) \<noteq> None" and rid: "rid \<noteq> []"
    and timer: "rid \<in> set (nextRoundTimers srv)"
    and st: "getGameState rid (mgr srv) = Some st"
  shows "on_nextRound rid srv
           = srv\<lparr>mgr := set_transitioning rid False (snd (nextRound rid (mgr srv))),
                 nextRoundTimers := removeAll rid (nextRoundTimers srv)\<rparr>"
    and "autoNextRound_fires rid srv
           = srv\<lparr>mgr := set_transitioning rid False (snd (nextRound rid (mgr srv))),
                 nextRoundTimers := removeAll rid (nextRoundTimers srv)\<rparr>"
proof -
  obtain st1 where f: "fst (nextRound rid (mgr srv)) = Some st1"
    using nextRound_Some[OF st] by blast
  note fl = set_client_flags_nextRound(1)[OF st f, of rid False]
  show "on_nextRound rid srv
           = srv\<lparr>mgr := set_transitioning rid False (snd (nextRound rid (mgr srv))),
                 nextRoundTimers := removeAll rid (nextRoundTimers srv)\<rparr>"
    using room rid timer f fl
    by (simp add: on_nextRound_def gameSync_guard_def clearAutoNextRound_def
          nextRound_set_transitioning)
  note fl' = set_client_flags_nextRound(2)[OF st f]
  show "autoNextRound_fires rid srv
           = srv\<lparr>mgr := set_transitioning rid False (snd (nextRound rid (mgr srv))),
                 nextRoundTimers := removeAll rid (nextRoundTimers srv)\<rparr>"
    using room timer f fl'
    by (auto simp: autoNextRound_fires_def split: prod.splits option.splits)
qed

lemma no_timer_fire: "rid \<notin> set (nextRoundTimers srv) \<Longrightarrow> autoNextRound_fires rid srv = srv"
  by (simp add: autoNextRound_fires_def)

lemma manual_after_advance:
  assumes room: "getRoom rid (mgr srv) \<noteq> None" and rid: "rid \<noteq> []"
    and st: "getGameState rid (mgr srv) = Some st"
  shows "on_nextRound rid
           (srv\<lparr>mgr := set_transitioning rid False (snd (nextRound rid (mgr srv))),
                 nextRoundTimers := removeAll rid (nextRoundTimers srv)\<rparr>)
         = srv\<lparr>mgr := set_transitioning rid False (snd (nextRound rid (mgr srv))),
                 nextRoundTimers := removeAll rid (nextRoundTimers srv)\<rparr>"
proof -
  obtain st1 where f: "fst (nextRound rid (mgr srv)) = Some st1"
    using nextRound_Some[OF st] by blast
  note fl = set_client_flags_nextRound(1)[OF st f, of rid False]
  have g: "getRoom rid (set_transitioning rid False (snd (nextRound rid (mgr srv)))) \<noteq> None"
    using room by (simp add: getRoom_set_transitioning getRoom_nextRound)
  show ?thesis
    using g rid f fl
    by (simp add: on_nextRound_def gameSync_guard_def clearAutoNextRound_def
          nextRound_set_transitioning nextRound_idem set_transitioning_idem)
qed

text \<open>
  C6. A room exists, has a game, and its automatic-advance timer is pending. Then the
  explicit request followed by the timer's firing, and the timer's firing followed by
  the explicit request, both leave the server in the state that the explicit request
  alone leaves it in: in the first order the request has cancelled the timer, whose
  firing then does nothing; in the second the request runs \<open>nextRound\<close> on cleared
  selections and changes nothing. In that state the game state is the one a single
  \<open>nextRound\<close> returns: each hand without its selected card, the selections cleared,
  no timer pending and the room not transitioning.
\<close>

theorem nextRound_exactly_once:
  assumes room: "getRoom rid (mgr srv) \<noteq> None" and rid: "rid \<noteq> []"
    and timer: "rid \<in> set (nextRoundTimers srv)"
    and st: "getGameState rid (mgr srv) = Some st"
  shows "autoNextRound_fires rid (on_nextRound rid srv) = on_nextRound rid srv
       \<and> on_nextRound rid (autoNextRound_fires rid srv) = on_nextRound rid srv
       \<and> mgr (on_nextRound rid srv) = set_transitioning rid False (snd (nextRound rid (mgr srv)))
       \<and> rid \<notin> set (nextRoundTimers (on_nextRound rid srv))
       \<and> \<not> is_transitioning rid (mgr (on_nextRound rid srv))
       \<and> (\<exists>st1. getGameState rid (mgr (on_nextRound rid srv)) = Some st1
             \<and> fst (nextRound rid (mgr srv)) = Some st1
             \<and> player1Hand st1 = remove_selected (player1SelectedCard st) (player1Hand st)
             \<and> player2Hand st1 = remove_selected (player2SelectedCard st) (player2Hand st)
             \<and> player1SelectedCard st1 = None \<and> player2SelectedCard st1 = None)"
proof -
  let ?once = "srv\<lparr>mgr := set_transitioning rid False (snd (nextRound rid (mgr srv))),
                 nextRoundTimers := removeAll rid (nextRoundTimers srv)\<rparr>"
  have a: "on_nextRound rid srv = ?once" and b: "autoNextRound_fires rid srv = ?once"
    using manual_is_timer[OF room rid timer st] by simp_all
  have c: "autoNextRound_fires rid ?once = ?once"
    by (rule no_timer_fire) simp
  have d: "on_nextRound rid ?once = ?once"
    by (rule manual_after_advance[OF room rid st])
  have e: "\<not> is_transitioning rid (set_transitioning rid False (snd (nextRound rid (mgr srv))))"
    by (simp add: is_transitioning_def set_transitioning_def update_conv' split: option.splits)
  obtain st1 where s1: "fst (nextRound rid (mgr srv)) = Some st1"
    and s2: "getGameState rid (snd (nextRound rid (mgr srv))) = Some st1"
    and s3: "player1Hand st1 = remove_selected (player1SelectedCard st) (player1Hand st)"
       "player2Hand st1 = remove_selected (player2SelectedCard st) (player2Hand st)"
       "player1SelectedCard st1 = None" "player2SelectedCard st1 = None"
    using nextRound_Some[OF st] by blast
  show ?thesis
    unfolding a b c d using e s1 s2 s3 by (simp add: getGameState_set_transitioning)
qed

lemma solved_srv_facts:
  "getRoom ''ROOM01'' (mgr solved_srv) \<noteq> None"
  "''ROOM01'' \<in> set (nextRoundTimers solved_srv)"
  "getGameState ''ROOM01'' (mgr solved_srv) \<noteq> None"
  "hand_sizes (getGameState ''ROOM01'' (mgr solved_srv)) = Some (2, 2)"
  "hand_sizes (fst (nextRound ''ROOM01'' (mgr solved_srv))) = Some (1, 1)"
  by code_simp+

theorem nextRound_exactly_once_witness:
  "''ROOM01'' \<in> set (nextRoundTimers solved_srv)
   \<and> hand_sizes (getGameState ''ROOM01'' (mgr solved_srv)) = Some (2, 2)
   \<and> hand_sizes (getGameState ''ROOM01''
        (mgr (autoNextRound_fires ''ROOM01'' (on_nextRound ''ROOM01'' solved_srv)))) = Some (1, 1)
   \<and> hand_sizes (getGameState ''ROOM01''
        (mgr (on_nextRound ''ROOM01'' (autoNextRound_fires ''ROOM01'' solved_srv)))) = Some (1, 1)"
proof -
  obtain st where cur: "getGameState ''ROOM01'' (mgr solved_srv) = Some st"
    using solved_srv_facts(3) by blast
  have rid: "''ROOM01'' \<noteq> []" by simp
  note once = nextRound_exactly_once[OF solved_srv_facts(1) rid solved_srv_facts(2) cur]
  have a: "autoNextRound_fires ''ROOM01'' (on_nextRound ''ROOM01'' solved_srv)
             = on_nextRound ''ROOM01'' solved_srv"
    and b: "on_nextRound ''ROOM01'' (autoNextRound_fires ''ROOM01'' solved_srv)
             = on_nextRound ''ROOM01'' solved_srv"
    and c: "\<exists>st1. getGameState ''ROOM01'' (mgr (on_nextRound ''ROOM01'' solved_srv)) = Some st1
             \<and> fst (nextRound ''ROOM01'' (mgr solved_srv)) = Some st1"
    using once by blast+
  have "getGameState ''ROOM01'' (mgr (on_nextRound ''ROOM01'' solved_srv))
          = fst (nextRound ''ROOM01'' (mgr solved_srv))"
    using c by auto
  thus ?thesis unfolding a b using solved_srv_facts by simp
qed

section \<open>Player numbers\<close>

text \<open>
  C5 at the input where the code departs from it. \<open>joinRoom\<close> gives every joiner the
  number 2. After the creator of a full room has left, the next joiner is numbered 2
  beside the remaining player 2: the room has two members, both hold number 2 and
  nobody holds number 1.
\<close>

theorem joinRoom_duplicate_playerNumber:
  "playersPresent ''ROOM01'' lobby2 = [1, 2] \<and> playersPresent ''ROOM01'' rejoined = [2, 2]"
  by code_simp

section \<open>Rematch requests\<close>

text \<open>
  C8 at the input where the code departs from it. Player 1 has asked for a rematch and
  the creator starts a game with \<open>startGame\<close>: the game starts, and the room's pending
  set still holds player 1, so that one request of player 2 alone resets the game.
\<close>

theorem startGame_keeps_rematch_requests:
  "map_of (rematchRequests rematch_pending) ''ROOM01'' = Some [1]
   \<and> fst (startGame zero_rng 0 ''s1'' ''ROOM01'' None [] rematch_pending) = AckOk
   \<and> map_of (rematchRequests started) ''ROOM01'' = Some [1]
   \<and> fst (requestRematch zero_rng 0 ''ROOM01'' 2 started) = AckBothConfirmed"
  by code_simp

text \<open>
  \<open>startGame\<close> never writes the pending sets; the rematch that both players confirmed
  and the explicit reset do clear the room's set.
\<close>

lemma startGame_rematchRequests:
  "rematchRequests (fst (snd (startGame rnd k sid rid pdiff vals srv))) = rematchRequests srv"
  by (simp add: startGame_def Let_def split: option.splits prod.splits)

lemma requestRematch_clears:
  "fst (requestRematch rnd k rid pn srv) = AckBothConfirmed \<Longrightarrow>
     map_of (rematchRequests (fst (snd (requestRematch rnd k rid pn srv)))) rid = None"
  by (auto simp: requestRematch_def Let_def delete_conv' split: option.splits prod.splits if_splits)

lemma resetGameState_Some:
  "map_of (rooms m) rid \<noteq> None \<Longrightarrow> fst (resetGameState rnd k rid m) \<noteq> None"
  by (auto simp: resetGameState_def initGameState_def Let_def split: prod.splits option.splits)

lemma on_resetGame_clears:
  assumes "gameSync_guard rid srv"
  shows "map_of (rematchRequests (fst (on_resetGame rnd k rid srv))) rid = None"
proof -
  have "fst (resetGameState rnd k rid (mgr srv)) \<noteq> None"
    using assms by (intro resetGameState_Some) (simp add: gameSync_guard_def getRoom_def)
  thus ?thesis using assms
    by (auto simp: on_resetGame_def delete_conv' split: prod.splits option.splits)
qed

section \<open>The generated problem\<close>








text \<open>
  The loop can run forever only under an oracle that keeps drawing options already
  present. For a correct answer that is not negative there is an oracle under which it
  returns after three rounds.
\<close>

lemma fill_step:
  "length opts < 4 \<Longrightarrow>
     fill_options rnd k c opts = fill_options rnd (k + 2) c (set_add opts (wrong_answer rnd k c))"
  by (subst fill_options.simps) simp

lemma fill_done: "length opts = 4 \<Longrightarrow> fill_options rnd k c opts = Some (opts, k)"
  by (subst fill_options.simps) simp

lemma fill_options_count:
  assumes "0 \<le> c"
  shows "fill_options (count_rng k) k c [c] = Some ([c, c + 1, c + 2, c + 3], k + 2 + 2 + 2)"
proof -
  let ?R = "count_rng k"
  have e0: "set_add [c] (wrong_answer ?R k c) = [c, c + 1]"
    using assms by (simp add: set_add_def wrong_answer_def count_rng_def Math_random_def)
  have e1: "set_add [c, c + 1] (wrong_answer ?R (k + 2) c) = [c, c + 1, c + 2]"
    using assms by (simp add: set_add_def wrong_answer_def count_rng_def Math_random_def)
  have e2: "set_add [c, c + 1, c + 2] (wrong_answer ?R (k + 2 + 2) c) = [c, c + 1, c + 2, c + 3]"
    using assms by (simp add: set_add_def wrong_answer_def count_rng_def Math_random_def)
  have l1: "length [c] < 4" and l2: "length [c, c + 1] < 4" and l3: "length [c, c + 1, c + 2] < 4"
    and l4: "length [c, c + 1, c + 2, c + 3] = 4"
    by simp_all
  have "fill_options ?R k c [c] = fill_options ?R (k + 2) c [c, c + 1]"
    using fill_step[OF l1, of ?R k c] by (simp only: e0)
  also have "\<dots> = fill_options ?R (k + 2 + 2) c [c, c + 1, c + 2]"
    using fill_step[OF l2, of ?R "k + 2" c] by (simp only: e1)
  also have "\<dots> = fill_options ?R (k + 2 + 2 + 2) c [c, c + 1, c + 2, c + 3]"
    using fill_step[OF l3, of ?R "k + 2 + 2" c] by (simp only: e2)
  also have "\<dots> = Some ([c, c + 1, c + 2, c + 3], k + 2 + 2 + 2)"
    by (rule fill_done[OF l4])
  finally show ?thesis .
qed

lemma buildAnswerOptions_returns: "0 \<le> c \<Longrightarrow> buildAnswerOptions (count_rng k) k c \<noteq> None"
  using fill_options_count[of c k] by (simp add: buildAnswerOptions_def set_add_def split: prod.splits)






section \<open>The hands and the round advance\<close>

lemma update_memD: "e \<in> set (AList.update k v al) \<Longrightarrow> e = (k, v) \<or> e \<in> set al"
  using set_update_subset[of k v al] by auto

lemma delete_memD: "e \<in> set (AList.delete k al) \<Longrightarrow> e \<in> set al"
  using set_delete_subset[of k al] by auto

lemma games_inv_same: "games_inv m \<Longrightarrow> gameStates m' = gameStates m \<Longrightarrow> games_inv m'"
  by (simp add: games_inv_def)

lemma games_inv_lookup:
  assumes "games_inv m" and "map_of (gameStates m) rid = Some st"
  shows "hands_ok st"
  using assms map_of_SomeD[of "gameStates m" rid st] by (fastforce simp: games_inv_def)

lemma games_inv_store: "games_inv m \<Longrightarrow> hands_ok st' \<Longrightarrow> games_inv (store rid st' m)"
  by (auto simp: games_inv_def store_def dest!: update_memD)

lemma createRoom_games: "gameStates (snd (createRoom rid pid rname now sid m)) = gameStates m"
  by (simp add: createRoom_def)

lemma joinRoom_games: "gameStates (snd (joinRoom pid now rid sid m)) = gameStates m"
  by (simp add: joinRoom_def Let_def split: option.splits)

lemma setPlayerStatus_games: "gameStates (snd (setPlayerStatus rid sid s m)) = gameStates m"
  by (simp add: setPlayerStatus_def split: option.splits)

lemma set_transitioning_games: "gameStates (set_transitioning rid b m) = gameStates m"
  by (simp add: set_transitioning_def split: option.splits)

lemma clear_lastEmptyAt_games: "gameStates (clear_lastEmptyAt rid m) = gameStates m"
  by (simp add: clear_lastEmptyAt_def split: option.splits)

lemma setRoomOptions_games: "gameStates (setRoomOptions rid d n m) = gameStates m"
  by (simp add: setRoomOptions_def Let_def split: option.splits)

lemma leaveRoomBySocket_games:
  "games_inv m \<Longrightarrow> games_inv (snd (leaveRoomBySocket sid m))"
  by (auto simp: leaveRoomBySocket_def Let_def games_inv_def split: option.splits prod.splits
           dest!: delete_memD)

lemma gc_fold_games:
  "set (gameStates (snd (fold (gc_room now) rs acc))) \<subseteq> set (gameStates (snd acc))"
proof (induction rs arbitrary: acc)
  case Nil
  show ?case by simp
next
  case (Cons r rs)
  have "set (gameStates (snd (gc_room now r acc))) \<subseteq> set (gameStates (snd acc))"
    by (auto simp: gc_room_def split: prod.splits dest!: delete_memD)
  thus ?case using Cons.IH[of "gc_room now r acc"] by auto
qed

lemma garbageCollectRooms_games: "games_inv m \<Longrightarrow> games_inv (snd (garbageCollectRooms now m))"
  using gc_fold_games[of now "rooms m" "([], m)"]
  by (auto simp: garbageCollectRooms_def games_inv_def)

lemma dealt_hands_distinct:
  "distinct (map card_id (take a (fst (shuffle rnd k build_deck))))"
  "distinct (map card_id (take a (drop b (fst (shuffle rnd k build_deck)))))"
  using shuffle_deck_distinct[of rnd k]
  by (simp_all add: take_map[symmetric] drop_map[symmetric])

lemma initGameState_games:
  assumes "games_inv m"
  shows "games_inv (fst (snd (initGameState rnd k rid opts m)))"
proof (cases "map_of (rooms m) rid")
  case None
  thus ?thesis using assms by (simp add: initGameState_def)
next
  case (Some r)
  thus ?thesis using assms dealt_hands_distinct
    by (auto simp: initGameState_def Let_def splice0_def split_beta games_inv_def hands_ok_def
             dest!: update_memD)
qed

lemma find_card_mem: "find_card cid h = Some c \<Longrightarrow> c \<in> set h"
  by (auto simp: find_card_def find_Some_iff)

lemma playerSelectCard_games:
  assumes inv: "games_inv m" and res: "playerSelectCard rnd k rid pn cid m = Some res"
  shows "games_inv (fst (snd res))"
proof (cases "map_of (gameStates m) rid")
  case None
  thus ?thesis using assms by (auto simp: playerSelectCard_def)
next
  case (Some st)
  note ok = games_inv_lookup[OF inv Some]
  show ?thesis
    using res Some inv ok find_card_mem
    by (auto simp: playerSelectCard_def Let_def hands_ok_def
             split: if_splits option.splits prod.splits intro!: games_inv_store)
qed

lemma playerSubmitAnswer_games:
  assumes inv: "games_inv m"
  shows "games_inv (snd (playerSubmitAnswer now rid pn a m))"
proof (cases "map_of (gameStates m) rid")
  case None
  thus ?thesis using assms by (simp add: playerSubmitAnswer_def)
next
  case (Some st)
  note ok = games_inv_lookup[OF inv Some]
  show ?thesis
    using Some inv ok
    by (auto simp: playerSubmitAnswer_def Let_def hands_ok_def intro!: games_inv_store)
qed

lemma nextRound_games:
  assumes inv: "games_inv m"
  shows "games_inv (snd (nextRound rid m))"
proof (cases "map_of (gameStates m) rid")
  case None
  thus ?thesis using assms by (simp add: nextRound_def)
next
  case (Some st)
  note ok = games_inv_lookup[OF inv Some]
  show ?thesis
    using Some inv ok
    by (auto simp: nextRound_def Let_def hands_ok_def remove_selected_def distinct_map_filter
             split: option.splits intro!: games_inv_store)
qed

lemma set_client_flags_games:
  assumes inv: "games_inv m"
  shows "games_inv (set_client_flags rid adv deal m)"
proof (cases "map_of (gameStates m) rid")
  case None
  thus ?thesis using assms by (simp add: set_client_flags_def)
next
  case (Some st)
  note ok = games_inv_lookup[OF inv Some]
  show ?thesis
    using Some inv ok
    by (auto simp: set_client_flags_def hands_ok_def intro!: games_inv_store)
qed

lemma resetGameState_games:
  assumes inv: "games_inv m"
  shows "games_inv (fst (snd (resetGameState rnd k rid m)))"
proof -
  let ?m0 = "m\<lparr>gameStates := AList.delete rid (gameStates m)\<rparr>"
  let ?o = "\<lparr>opt_difficulty = None, opt_initialCards = None\<rparr>"
  let ?m1 = "fst (snd (initGameState rnd k rid ?o ?m0))"
  have "games_inv ?m0" using inv by (auto simp: games_inv_def dest!: delete_memD)
  hence i1: "games_inv ?m1" by (rule initGameState_games)
  show ?thesis
  proof (cases "fst (initGameState rnd k rid ?o ?m0)")
    case None
    obtain x m1 k1 where e: "initGameState rnd k rid ?o ?m0 = (x, m1, k1)"
      by (cases "initGameState rnd k rid ?o ?m0")
    have "fst (snd (resetGameState rnd k rid m)) = ?m1"
      using None e by (simp add: resetGameState_def)
    thus ?thesis using i1 by simp
  next
    case (Some s)
    hence "map_of (gameStates ?m1) rid = Some s"
      by (cases "map_of (rooms m) rid")
         (auto simp: initGameState_def Let_def split_beta update_conv')
    hence ok: "hands_ok s" using games_inv_lookup[OF i1] by simp
    obtain x m1 k1 where e: "initGameState rnd k rid ?o ?m0 = (x, m1, k1)"
      by (cases "initGameState rnd k rid ?o ?m0")
    have "fst (snd (resetGameState rnd k rid m))
            = store rid (s\<lparr>dealComplete := False, advanceClients := False\<rparr>) ?m1"
      using Some e by (simp add: resetGameState_def Let_def)
    moreover have "hands_ok (s\<lparr>dealComplete := False, advanceClients := False\<rparr>)"
      using ok by (simp add: hands_ok_def)
    ultimately show ?thesis using games_inv_store[OF i1] by simp
  qed
qed

lemma apply_op_games:
  assumes "games_inv m" and "apply_op x m = Some m'"
  shows "games_inv m'"
proof (cases x)
  case (SelectCard rnd k rid pn cid)
  then obtain res where "playerSelectCard rnd k rid pn cid m = Some res" "m' = fst (snd res)"
    using assms(2) by auto
  thus ?thesis using playerSelectCard_games[OF assms(1)] by blast
qed (use assms leaveRoomBySocket_games initGameState_games playerSubmitAnswer_games
       nextRound_games resetGameState_games garbageCollectRooms_games set_client_flags_games
       games_inv_same[OF assms(1) createRoom_games] games_inv_same[OF assms(1) joinRoom_games]
       games_inv_same[OF assms(1) setPlayerStatus_games]
       games_inv_same[OF assms(1) set_transitioning_games]
       games_inv_same[OF assms(1) clear_lastEmptyAt_games]
       games_inv_same[OF assms(1) setRoomOptions_games] in auto)

lemma run_games: "games_inv m \<Longrightarrow> run ops m = Some m' \<Longrightarrow> games_inv m'"
proof (induction ops arbitrary: m)
  case Nil
  thus ?case by simp
next
  case (Cons x xs)
  thus ?case using apply_op_games by (auto split: option.splits)
qed

lemma new_manager_games: "games_inv new_manager"
  by (simp add: games_inv_def new_manager_def)

lemma filter_id_remove1:
  "distinct (map card_id h) \<Longrightarrow> c \<in> set h \<Longrightarrow>
     filter (\<lambda>x. card_id x \<noteq> card_id c) h = remove1 c h"
proof (induction h)
  case Nil
  thus ?case by simp
next
  case (Cons x xs)
  show ?case
  proof (cases "x = c")
    case True
    have "card_id c \<notin> card_id ` set xs" using Cons.prems(1) True by simp
    hence "\<forall>y \<in> set xs. card_id y \<noteq> card_id c" by (metis imageI)
    hence "filter (\<lambda>x. card_id x \<noteq> card_id c) xs = xs" by (simp add: filter_id_conv)
    thus ?thesis using True by simp
  next
    case False
    hence "c \<in> set xs" using Cons.prems(2) by simp
    moreover hence "card_id x \<noteq> card_id c" using Cons.prems(1) by auto
    ultimately show ?thesis using Cons False by simp
  qed
qed

lemma remove_selected_remove1:
  assumes "distinct (map card_id h)" and "\<forall>c. sel = Some c \<longrightarrow> c \<in> set h"
  shows "remove_selected sel h = (case sel of Some c \<Rightarrow> remove1 c h | None \<Rightarrow> h)"
    and "length (remove_selected sel h) = length h - (if sel = None then 0 else 1)"
  using assms by (auto simp: remove_selected_def filter_id_remove1 length_remove1 split: option.splits)

text \<open>
  C2. In every state of the room manager reached from the empty one by any list of
  operations, and for every room with a game, \<open>nextRound\<close> returns and stores a state
  in which each hand is the old hand without the card its player had selected (that one
  card, found by its id, and no other; the hand as it was when nothing was selected),
  \<^verbatim>\<open>gameOver\<close> is true exactly when one of the new hands is empty, and when it is true
  the winner is the player with the strictly higher score, nobody for equal scores.
  The scores are unchanged and the selections cleared.
\<close>

theorem nextRound_removes_selected:
  assumes reach: "run ops new_manager = Some m" and cur: "getGameState rid m = Some st"
  shows "\<exists>st'. nextRound rid m = (Some st', store rid st' m)
       \<and> player1Hand st' = (case player1SelectedCard st of
                               Some c \<Rightarrow> remove1 c (player1Hand st) | None \<Rightarrow> player1Hand st)
       \<and> player2Hand st' = (case player2SelectedCard st of
                               Some c \<Rightarrow> remove1 c (player2Hand st) | None \<Rightarrow> player2Hand st)
       \<and> length (player1Hand st')
            = length (player1Hand st) - (if player1SelectedCard st = None then 0 else 1)
       \<and> length (player2Hand st')
            = length (player2Hand st) - (if player2SelectedCard st = None then 0 else 1)
       \<and> (gameOver st' \<longleftrightarrow> player1Hand st' = [] \<or> player2Hand st' = [])
       \<and> (gameOver st' \<longrightarrow>
             winner st' = (if player1Score st > player2Score st then Some ''player1''
                           else if player2Score st > player1Score st then Some ''player2''
                           else None))
       \<and> (\<not> gameOver st' \<longrightarrow> winner st' = winner st)
       \<and> player1Score st' = player1Score st \<and> player2Score st' = player2Score st
       \<and> player1SelectedCard st' = None \<and> player2SelectedCard st' = None"
proof -
  have "games_inv m" using run_games[OF new_manager_games reach] .
  hence ok: "hands_ok st" using games_inv_lookup cur by (simp add: getGameState_def)
  note r1 = remove_selected_remove1[of "player1Hand st" "player1SelectedCard st"]
  note r2 = remove_selected_remove1[of "player2Hand st" "player2SelectedCard st"]
  have e1: "remove_selected (player1SelectedCard st) (player1Hand st)
              = (case player1SelectedCard st of
                   Some c \<Rightarrow> remove1 c (player1Hand st) | None \<Rightarrow> player1Hand st)"
    and l1: "length (remove_selected (player1SelectedCard st) (player1Hand st))
              = length (player1Hand st) - (if player1SelectedCard st = None then 0 else 1)"
    using r1 ok by (simp_all add: hands_ok_def)
  have e2: "remove_selected (player2SelectedCard st) (player2Hand st)
              = (case player2SelectedCard st of
                   Some c \<Rightarrow> remove1 c (player2Hand st) | None \<Rightarrow> player2Hand st)"
    and l2: "length (remove_selected (player2SelectedCard st) (player2Hand st))
              = length (player2Hand st) - (if player2SelectedCard st = None then 0 else 1)"
    using r2 ok by (simp_all add: hands_ok_def)
  have "\<exists>st'. nextRound rid m = (Some st', store rid st' m)
       \<and> player1Hand st' = remove_selected (player1SelectedCard st) (player1Hand st)
       \<and> player2Hand st' = remove_selected (player2SelectedCard st) (player2Hand st)
       \<and> (gameOver st' \<longleftrightarrow> player1Hand st' = [] \<or> player2Hand st' = [])
       \<and> (gameOver st' \<longrightarrow>
             winner st' = (if player1Score st > player2Score st then Some ''player1''
                           else if player2Score st > player1Score st then Some ''player2''
                           else None))
       \<and> (\<not> gameOver st' \<longrightarrow> winner st' = winner st)
       \<and> player1Score st' = player1Score st \<and> player2Score st' = player2Score st
       \<and> player1SelectedCard st' = None \<and> player2SelectedCard st' = None"
    using cur by (simp add: nextRound_def getGameState_def Let_def)
  thus ?thesis unfolding e1 e2 using l1 l2 e1 e2 by auto
qed

lemma playing2_run:
  "run [CreateRoom ''ROOM01'' ''player_a'' ''happy-fox'' 0 ''s1'',
        JoinRoom ''player_b'' 1 ''ROOM01'' ''s2'',
        InitGame zero_rng 0 ''ROOM01'' \<lparr>opt_difficulty = None, opt_initialCards = Some 2\<rparr>,
        SelectCard demo_rng 0 ''ROOM01'' 1 ''hearts-3-1'',
        SelectCard demo_rng 0 ''ROOM01'' 2 ''hearts-5-3''] new_manager = Some playing2"
proof -
  have "run [CreateRoom ''ROOM01'' ''player_a'' ''happy-fox'' 0 ''s1'',
        JoinRoom ''player_b'' 1 ''ROOM01'' ''s2'',
        InitGame zero_rng 0 ''ROOM01'' \<lparr>opt_difficulty = None, opt_initialCards = Some 2\<rparr>,
        SelectCard demo_rng 0 ''ROOM01'' 1 ''hearts-3-1'',
        SelectCard demo_rng 0 ''ROOM01'' 2 ''hearts-5-3''] new_manager \<noteq> None"
    by code_simp
  thus ?thesis unfolding playing2_def or_else_def by (auto simp del: run.simps)
qed

lemma playing2_facts:
  "getGameState ''ROOM01'' playing2 \<noteq> None"
  "map_option (\<lambda>s. (length (player1Hand s), length (player2Hand s),
                     player1SelectedCard s = None, player2SelectedCard s = None))
     (getGameState ''ROOM01'' playing2) = Some (2, 2, False, False)"
  by code_simp+

theorem nextRound_removes_selected_witness:
  "run [CreateRoom ''ROOM01'' ''player_a'' ''happy-fox'' 0 ''s1'',
        JoinRoom ''player_b'' 1 ''ROOM01'' ''s2'',
        InitGame zero_rng 0 ''ROOM01'' \<lparr>opt_difficulty = None, opt_initialCards = Some 2\<rparr>,
        SelectCard demo_rng 0 ''ROOM01'' 1 ''hearts-3-1'',
        SelectCard demo_rng 0 ''ROOM01'' 2 ''hearts-5-3''] new_manager = Some playing2
   \<and> hand_sizes (getGameState ''ROOM01'' playing2) = Some (2, 2)
   \<and> hand_sizes (fst (nextRound ''ROOM01'' playing2)) = Some (1, 1)"
proof -
  obtain st where cur: "getGameState ''ROOM01'' playing2 = Some st"
    using playing2_facts(1) by blast
  have f: "length (player1Hand st) = 2" "length (player2Hand st) = 2"
    "player1SelectedCard st \<noteq> None" "player2SelectedCard st \<noteq> None"
    using playing2_facts(2) cur by simp_all
  obtain st' where "nextRound ''ROOM01'' playing2 = (Some st', store ''ROOM01'' st' playing2)"
    and "length (player1Hand st')
            = length (player1Hand st) - (if player1SelectedCard st = None then 0 else 1)"
    and "length (player2Hand st')
            = length (player2Hand st) - (if player2SelectedCard st = None then 0 else 1)"
    using nextRound_removes_selected[OF playing2_run cur] by blast
  thus ?thesis using playing2_run cur f by (simp add: hand_sizes_def)
qed

text \<open>
  The last round of the test game: player 2 has the point, both hands run empty, the
  game is over and player 2 wins.
\<close>

lemma last_round_scenario:
  "map_option (\<lambda>s. (player1Hand s, player2Hand s, gameOver s, winner s, player1Score s,
                     player2Score s))
     (fst (nextRound ''ROOM01'' answered_right)) = Some ([], [], True, Some ''player2'', 0, 1)"
  by code_simp

section \<open>Membership of rooms\<close>

lemma members_inv_same: "members_inv m \<Longrightarrow> rooms m' = rooms m \<Longrightarrow> members_inv m'"
  by (simp add: members_inv_def)

lemma members_inv_lookup:
  assumes "members_inv m" and "map_of (rooms m) rid = Some r"
  shows "members_ok r"
  using assms map_of_SomeD[of "rooms m" rid r] by (fastforce simp: members_inv_def)

lemma members_inv_update:
  assumes "members_inv m" and "members_ok r" and "rooms m' = AList.update rid r (rooms m)"
  shows "members_inv m'"
  using assms by (auto simp: members_inv_def dest!: update_memD)

lemma members_inv_delete:
  assumes "members_inv m" and "rooms m' = AList.delete rid (rooms m)"
  shows "members_inv m'"
  using assms by (auto simp: members_inv_def dest!: delete_memD)

lemma members_ok_players:
  "members_ok r \<Longrightarrow> players r' = players r \<Longrightarrow> members_ok r'"
  by (simp add: members_ok_def)

lemma length_update_alist:
  "length (AList.update k v al) = (if k \<in> fst ` set al then length al else Suc (length al))"
  by (induct al) auto

lemma createRoom_members: "members_inv m \<Longrightarrow> members_inv (snd (createRoom rid pid rname now sid m))"
  by (auto simp: createRoom_def members_inv_def members_ok_def map_size_def dest!: update_memD)

lemma joinRoom_members:
  assumes "members_inv m"
  shows "members_inv (snd (joinRoom pid now rid sid m))"
proof (cases "map_of (rooms m) rid")
  case None
  thus ?thesis using assms by (simp add: joinRoom_def)
next
  case (Some r)
  note ok = members_inv_lookup[OF assms Some]
  show ?thesis
  proof (cases "map_size (players r) \<ge> 2")
    case True
    thus ?thesis using assms Some by (simp add: joinRoom_def)
  next
    case False
    let ?p = "\<lparr>playerId = pid, playerNumber = 2, socketId = sid, status = ''lobby''\<rparr>"
    have "members_ok (r\<lparr>players := AList.update sid ?p (players r), lastActivity := now\<rparr>)"
      using ok False by (auto simp: members_ok_def map_size_def length_update_alist dest!: update_memD)
    thus ?thesis
      by (rule members_inv_update[OF assms]) (use Some False in \<open>simp add: joinRoom_def\<close>)
  qed
qed

lemma leaveRoomBySocket_members:
  assumes "members_inv m"
  shows "members_inv (snd (leaveRoomBySocket sid m))"
proof (cases "find_room_of sid (rooms m)")
  case None
  thus ?thesis using assms by (simp add: leaveRoomBySocket_def)
next
  case (Some e)
  obtain rid r where e: "e = (rid, r)" by (cases e)
  have "(rid, r) \<in> set (rooms m)" using find_room_of_mem Some e by simp
  hence ok: "members_ok r" using assms by (auto simp: members_inv_def)
  have l: "length (AList.delete sid (players r)) \<le> length (players r)"
    by (simp add: AList.delete_eq)
  show ?thesis
  proof (cases "map_size (AList.delete sid (players r)) = 0")
    case True
    show ?thesis
      by (rule members_inv_delete[OF assms, where rid = rid])
         (use Some e True in \<open>simp add: leaveRoomBySocket_def Let_def\<close>)
  next
    case False
    have "members_ok (r\<lparr>players := AList.delete sid (players r),
                        lastEmptyAt := (if truthy_num (lastEmptyAt r) \<noteq> None then None
                                        else lastEmptyAt r)\<rparr>)"
      using ok l by (auto simp: members_ok_def map_size_def dest!: delete_memD)
    thus ?thesis
      by (rule members_inv_update[OF assms])
         (use Some e False in \<open>simp add: leaveRoomBySocket_def Let_def\<close>)
  qed
qed

lemma setPlayerStatus_members:
  assumes "members_inv m"
  shows "members_inv (snd (setPlayerStatus rid sid s m))"
proof (cases "map_of (rooms m) rid")
  case None
  thus ?thesis using assms by (simp add: setPlayerStatus_def)
next
  case (Some r)
  note ok = members_inv_lookup[OF assms Some]
  show ?thesis
  proof (cases "map_of (players r) sid")
    case None
    thus ?thesis using assms Some by (simp add: setPlayerStatus_def)
  next
    case p: (Some p)
    have mem: "(sid, p) \<in> set (players r)" using map_of_SomeD[OF p] .
    hence "sid \<in> fst ` set (players r)" by force
    hence "members_ok (r\<lparr>players := AList.update sid (p\<lparr>status := s\<rparr>) (players r)\<rparr>)"
      using ok mem by (auto simp: members_ok_def map_size_def length_update_alist dest!: update_memD)
    thus ?thesis
      by (rule members_inv_update[OF assms]) (use Some p in \<open>simp add: setPlayerStatus_def\<close>)
  qed
qed

lemma set_all_status_ok: "members_ok r \<Longrightarrow> members_ok (r\<lparr>players := set_all_status s (players r)\<rparr>)"
  by (auto simp: members_ok_def map_size_def set_all_status_def)

lemma initGameState_members:
  assumes "members_inv m"
  shows "members_inv (fst (snd (initGameState rnd k rid opts m)))"
proof (cases "map_of (rooms m) rid")
  case None
  thus ?thesis using assms initGameState_no_room by simp
next
  case (Some r)
  note ok = members_inv_lookup[OF assms Some]
  obtain d n where u: "rooms (fst (snd (initGameState rnd k rid opts m))) =
       AList.update rid (r\<lparr>room_difficulty := Some d, room_initialCards := Some n,
                            room_options := Some (Some d, Some n),
                            players := set_all_status ''in-game'' (players r)\<rparr>) (rooms m)"
    using initGameState_rooms[OF Some] by blast
  have "members_ok (r\<lparr>room_difficulty := Some d, room_initialCards := Some n,
                            room_options := Some (Some d, Some n),
                            players := set_all_status ''in-game'' (players r)\<rparr>)"
    using set_all_status_ok[OF ok, of "''in-game''"] by (simp add: members_ok_def)
  thus ?thesis by (rule members_inv_update[OF assms _ u])
qed

lemma resetGameState_members:
  assumes "members_inv m"
  shows "members_inv (fst (snd (resetGameState rnd k rid m)))"
proof -
  let ?m0 = "m\<lparr>gameStates := AList.delete rid (gameStates m)\<rparr>"
  let ?o = "\<lparr>opt_difficulty = None, opt_initialCards = None\<rparr>"
  have i0: "members_inv ?m0" using assms by (simp add: members_inv_def)
  have "rooms (fst (snd (resetGameState rnd k rid m)))
          = rooms (fst (snd (initGameState rnd k rid ?o ?m0)))"
    by (simp add: resetGameState_def Let_def store_def split: prod.splits option.splits)
  thus ?thesis using initGameState_members[OF i0, of rnd k rid ?o] by (simp add: members_inv_def)
qed

lemma gc_fold_rooms:
  "set (rooms (snd (fold (gc_room now) rs acc))) \<subseteq> set (rooms (snd acc))"
proof (induction rs arbitrary: acc)
  case Nil
  show ?case by simp
next
  case (Cons r rs)
  have "set (rooms (snd (gc_room now r acc))) \<subseteq> set (rooms (snd acc))"
    by (auto simp: gc_room_def split: prod.splits dest!: delete_memD)
  thus ?case using Cons.IH[of "gc_room now r acc"] by auto
qed

lemma garbageCollectRooms_members:
  "members_inv m \<Longrightarrow> members_inv (snd (garbageCollectRooms now m))"
  using gc_fold_rooms[of now "rooms m" "([], m)"]
  by (auto simp: garbageCollectRooms_def members_inv_def)

lemma set_transitioning_members:
  assumes "members_inv m"
  shows "members_inv (set_transitioning rid b m)"
proof (cases "map_of (rooms m) rid")
  case None
  thus ?thesis using assms by (simp add: set_transitioning_def)
next
  case (Some r)
  have "members_ok (r\<lparr>transitioning := b\<rparr>)"
    using members_inv_lookup[OF assms Some] by (simp add: members_ok_def)
  thus ?thesis
    by (rule members_inv_update[OF assms]) (use Some in \<open>simp add: set_transitioning_def\<close>)
qed

lemma clear_lastEmptyAt_members:
  assumes "members_inv m"
  shows "members_inv (clear_lastEmptyAt rid m)"
proof (cases "map_of (rooms m) rid")
  case None
  thus ?thesis using assms by (simp add: clear_lastEmptyAt_def)
next
  case (Some r)
  have ok: "members_ok (r\<lparr>lastEmptyAt := None\<rparr>)"
    using members_inv_lookup[OF assms Some] by (simp add: members_ok_def)
  show ?thesis
  proof (cases "truthy_num (lastEmptyAt r) \<noteq> None")
    case True
    show ?thesis
      by (rule members_inv_update[OF assms ok])
         (use Some True in \<open>simp add: clear_lastEmptyAt_def\<close>)
  next
    case False
    thus ?thesis using assms Some by (simp add: clear_lastEmptyAt_def)
  qed
qed

lemma setRoomOptions_members:
  assumes "members_inv m"
  shows "members_inv (setRoomOptions rid d n m)"
proof (cases "map_of (rooms m) rid")
  case None
  thus ?thesis using assms by (simp add: setRoomOptions_def)
next
  case (Some r)
  let ?d = "case truthy_str d of Some v \<Rightarrow> Some v | None \<Rightarrow> room_difficulty r"
  let ?n = "case truthy_num n of Some v \<Rightarrow> Some v | None \<Rightarrow> room_initialCards r"
  have "members_ok (r\<lparr>room_difficulty := ?d, room_initialCards := ?n,
                      room_options := Some (?d, ?n)\<rparr>)"
    using members_inv_lookup[OF assms Some] by (simp add: members_ok_def)
  thus ?thesis
    by (rule members_inv_update[OF assms]) (use Some in \<open>simp add: setRoomOptions_def Let_def\<close>)
qed

lemma apply_op_members:
  assumes "members_inv m" and "apply_op x m = Some m'"
  shows "members_inv m'"
proof (cases x)
  case (SelectCard rnd k rid pn cid)
  then obtain res where "playerSelectCard rnd k rid pn cid m = Some res" "m' = fst (snd res)"
    using assms(2) by auto
  thus ?thesis using playerSelectCard_rooms members_inv_same[OF assms(1)] by blast
qed (use assms createRoom_members joinRoom_members leaveRoomBySocket_members
       setPlayerStatus_members initGameState_members resetGameState_members
       garbageCollectRooms_members set_transitioning_members clear_lastEmptyAt_members
       setRoomOptions_members members_inv_same[OF assms(1) playerSubmitAnswer_rooms]
       members_inv_same[OF assms(1) nextRound_rooms]
       members_inv_same[OF assms(1) set_client_flags_rooms] in auto)

lemma run_members: "members_inv m \<Longrightarrow> run ops m = Some m' \<Longrightarrow> members_inv m'"
proof (induction ops arbitrary: m)
  case Nil
  thus ?case by simp
next
  case (Cons x xs)
  thus ?case using apply_op_members by (auto split: option.splits)
qed

text \<open>
  In every reachable state a room has at most two members and every member holds the
  number 1 or 2. That the two numbers differ does not hold.
\<close>

lemma reachable_membership:
  assumes "run ops new_manager = Some m" and "getRoom rid m = Some r"
  shows "map_size (players r) \<le> 2
       \<and> (\<forall>e \<in> set (players r). playerNumber (snd e) = 1 \<or> playerNumber (snd e) = 2)"
proof -
  have "members_inv new_manager" by (simp add: members_inv_def new_manager_def)
  hence "members_inv m" using run_members assms(1) by blast
  thus ?thesis using members_inv_lookup[of m rid r] assms(2)
    by (simp add: getRoom_def members_ok_def)
qed

end
